theory Spec2Isabelle
  imports Main "HOL-Library.AList"
begin

section \<open>The user-data engine of \<^verbatim>\<open>src/dynamo.ts\<close>\<close>

text \<open>
  The engine keeps one DynamoDB table of user items. An item is addressed by its primary
  key \<^verbatim>\<open>user_id\<close>; every other attribute is optional and holds a string. The table is
  an association list from \<^verbatim>\<open>user_id\<close> to the item's other attributes, in the order in
  which a scan goes through the items; a put of a new key adds the item at the end of
  that order, and a put or an update of an existing key leaves the item in its place.
  Strings are sequences of bytes and the white space and letters looked at are the ASCII
  ones.
  An attribute that the code passes as \<^verbatim>\<open>undefined\<close> is not stored, so it is \<open>None\<close>
  here. The functions below are those of \<^verbatim>\<open>dynamo.ts\<close> without their \<^verbatim>\<open>table\<close> argument
  where the function does not look at it; what the libraries and the environment
  contribute to a call (a salt, a new identifier, a token, the clock, the outcome of a
  mail) is an argument.
\<close>

type_synonym attrs = "string \<rightharpoonup> string"
type_synonym item = "string \<times> attrs"
type_synonym db = "item list"

text \<open>
  \<^verbatim>\<open>ErrorWithStatus(message, statusCode)\<close> is what the engine throws. \<open>Error\<close> is a plain
  JavaScript error without a status code, as thrown by \<^verbatim>\<open>bcrypt.compare\<close> on a digest
  that is not a string; the request handlers answer it with status 500.
\<close>

datatype error = ErrorWithStatus string nat | Error string

fun statusCode :: "error \<Rightarrow> nat option" where
  "statusCode (ErrorWithStatus m s) = Some s"
| "statusCode (Error m) = None"

subsection \<open>Constants (\<^verbatim>\<open>constants.ts\<close>)\<close>

definition TABLE_NAME :: string where
  "TABLE_NAME = ''User Data Table''"

definition ADDITIONAL_USER_FIELDS :: "string list" where
  "ADDITIONAL_USER_FIELDS = [''username'']"

definition RETRIEVABLE_USER_FIELDS :: "string list" where
  "RETRIEVABLE_USER_FIELDS = [''username'', ''provider'', ''email''] @ ADDITIONAL_USER_FIELDS"

subsection \<open>Library functions the engine calls\<close>

text \<open>
  The libraries are parameters of the model: \<^verbatim>\<open>EmailValidator.validate\<close>,
  \<^verbatim>\<open>bcrypt.hash(secret, 10)\<close> (its second argument here is the salt that the call draws),
  \<^verbatim>\<open>bcrypt.compare\<close> on two strings, \<^verbatim>\<open>Date.prototype.toISOString\<close> and the parsing
  \<^verbatim>\<open>new Date(string)\<close>; times are milliseconds since the epoch and an unparsable string
  (an invalid date) is \<open>None\<close>. \<open>nextHour\<close> is the instant that
  \<^verbatim>\<open>now.setHours(now.getHours() + 1)\<close> moves the date to: an hour later, except across a
  change of the local clock. \<open>page_items\<close> belongs to the store: the number of items on the
  first page of a scan of the table, which ends when 1 MB of data has been read.
\<close>

record lib =
  validate :: "string \<Rightarrow> bool"
  bcrypt_hash :: "string \<Rightarrow> string \<Rightarrow> string"
  bcrypt_compare :: "string \<Rightarrow> string \<Rightarrow> bool"
  toISOString :: "int \<Rightarrow> string"
  parseDate :: "string \<Rightarrow> int option"
  nextHour :: "int \<Rightarrow> int"
  page_items :: "db \<Rightarrow> nat"

text \<open>
  \<^verbatim>\<open>docClient.send(new ScanCommand({TableName: table}))\<close>: every function below sends one
  scan and reads \<^verbatim>\<open>response.Items\<close>; none looks at \<^verbatim>\<open>LastEvaluatedKey\<close> or sends a second
  scan, so what it goes through is the first page of the table.
\<close>

definition Scan :: "lib \<Rightarrow> db \<Rightarrow> item list" where
  "Scan L t = take (page_items L t) t"

text \<open>\<^verbatim>\<open>bcrypt.compare(s, hash)\<close> rejects when the digest is \<^verbatim>\<open>undefined\<close>.\<close>

definition compare :: "lib \<Rightarrow> string \<Rightarrow> string option \<Rightarrow> error + bool" where
  "compare L s h =
     (case h of
        None \<Rightarrow> Inl (Error ''Illegal arguments: string, undefined'')
      | Some d \<Rightarrow> Inr (bcrypt_compare L s d))"

text \<open>JavaScript truthiness of an attribute: present and not the empty string.\<close>

definition truthy :: "string option \<Rightarrow> bool" where
  "truthy v = (case v of None \<Rightarrow> False | Some s \<Rightarrow> s \<noteq> [])"

text \<open>An attribute inside a template literal: \<^verbatim>\<open>${item.provider}\<close>.\<close>

definition interp :: "string option \<Rightarrow> string" where
  "interp v = (case v of None \<Rightarrow> ''undefined'' | Some s \<Rightarrow> s)"

text \<open>\<^verbatim>\<open>String.prototype.toLowerCase\<close>, on the ASCII letters.\<close>

definition lower_char :: "char \<Rightarrow> char" where
  "lower_char c =
     (let n = (of_char c :: nat) in if 65 \<le> n \<and> n \<le> 90 then char_of (n + 32) else c)"

definition toLowerCase :: "string \<Rightarrow> string" where
  "toLowerCase s = map lower_char s"

text \<open>\<^verbatim>\<open>String.prototype.trim\<close>, on the ASCII white space.\<close>

definition is_space :: "char \<Rightarrow> bool" where
  "is_space c = ((of_char c :: nat) \<in> {9, 10, 11, 12, 13, 32})"

definition trim :: "string \<Rightarrow> string" where
  "trim s = rev (dropWhile is_space (rev (dropWhile is_space s)))"

text \<open>\<^verbatim>\<open>fields.split(",")\<close>: the pieces between commas, at least one piece.\<close>

fun split_comma :: "string \<Rightarrow> string list" where
  "split_comma [] = [[]]"
| "split_comma (c # cs) =
     (if c = CHR '','' then [] # split_comma cs
      else (case split_comma cs of [] \<Rightarrow> [[c]] | p # ps \<Rightarrow> (c # p) # ps))"

subsection \<open>Helpers of \<^verbatim>\<open>dynamo.ts\<close>\<close>

definition validateTableName :: "string \<Rightarrow> error option" where
  "validateTableName table =
     (if table \<noteq> TABLE_NAME then Some (ErrorWithStatus ''Invalid Table Name'' 400) else None)"

text \<open>
  \<^verbatim>\<open>databaseAddUser\<close>: a \<^verbatim>\<open>PutCommand\<close> of the new item under the identifier that
  \<^verbatim>\<open>randomUUID()\<close> returned (\<open>newIdVal\<close>). A put replaces the item that has this key, or
  adds the item.
\<close>

definition new_item :: "string \<Rightarrow> string \<Rightarrow> string option \<Rightarrow> string option \<Rightarrow> attrs" where
  "new_item username email passwordHash provider =
     (\<lambda>k. if k = ''username'' then Some username
          else if k = ''password_hash'' then passwordHash
          else if k = ''provider'' then provider
          else if k = ''email'' then Some email
          else None)"

definition databaseAddUser ::
  "string \<Rightarrow> string \<Rightarrow> string option \<Rightarrow> string option \<Rightarrow> string \<Rightarrow> db \<Rightarrow> string \<times> db" where
  "databaseAddUser username email passwordHash provider newIdVal t =
     (newIdVal, AList.update newIdVal (new_item username email passwordHash provider) t)"

text \<open>
  \<^verbatim>\<open>databaseEditUser\<close>: an \<^verbatim>\<open>UpdateCommand\<close> that sets the attributes of \<open>infoValues\<close> on
  the item with key \<open>userID\<close>, under the condition \<^verbatim>\<open>attribute_exists(user_id)\<close>; any
  failure of the command is rethrown as status 400. With no attribute to set the update
  expression is \<^verbatim>\<open>set\<close> and nothing else, which the store rejects.
\<close>

definition set_attrs :: "(string \<times> string) list \<Rightarrow> attrs \<Rightarrow> attrs" where
  "set_attrs infoValues a = a ++ map_of infoValues"

definition databaseEditUser ::
  "string \<Rightarrow> (string \<times> string) list \<Rightarrow> db \<Rightarrow> (error + unit) \<times> db" where
  "databaseEditUser userID infoValues t =
     (if infoValues \<noteq> [] \<and> userID \<in> set (map fst t)
      then (Inr (), AList.map_entry userID (set_attrs infoValues) t)
      else (Inl (ErrorWithStatus ''User Id does not exist'' 400), t))"

text \<open>The two notification mails; \<open>sent\<close> tells whether \<^verbatim>\<open>sendMail\<close> succeeded.\<close>

definition sendTokenEmail :: "bool \<Rightarrow> error option" where
  "sendTokenEmail sent = (if sent then None else Some (ErrorWithStatus ''Email failed to send'' 500))"

definition sendPasswordResetEmail :: "bool \<Rightarrow> error option" where
  "sendPasswordResetEmail sent =
     (if sent then None else Some (ErrorWithStatus ''Email failed to send'' 500))"

subsection \<open>\<^verbatim>\<open>registerUser\<close>\<close>

fun register_scan :: "item list \<Rightarrow> string \<Rightarrow> error option" where
  "register_scan [] email = None"
| "register_scan ((uid, a) # items) email =
     (if a ''email'' = Some email
      then Some (ErrorWithStatus
             (''Email has been taken.'' @
                (if truthy (a ''provider'')
                 then '' Did you mean to sign in using '' @ interp (a ''provider'') @ ''?''
                 else [])) 409)
      else register_scan items email)"

definition registerUser ::
  "lib \<Rightarrow> string \<Rightarrow> string \<Rightarrow> string \<Rightarrow> string \<Rightarrow> string \<Rightarrow> string \<Rightarrow> db \<Rightarrow> (error + string) \<times> db" where
  "registerUser L table username password email salt newIdVal t =
     (case validateTableName table of
        Some e \<Rightarrow> (Inl e, t)
      | None \<Rightarrow>
          if \<not> validate L email then (Inl (ErrorWithStatus ''Invalid Email'' 400), t)
          else (case register_scan (Scan L t) email of
                  Some e \<Rightarrow> (Inl e, t)
                | None \<Rightarrow>
                    (let hashedPassword = bcrypt_hash L password salt;
                         (uid, t') = databaseAddUser username email (Some hashedPassword) None newIdVal t
                     in (Inr uid, t'))))"

subsection \<open>\<^verbatim>\<open>authenticateUser\<close>\<close>

fun authenticate_scan :: "lib \<Rightarrow> item list \<Rightarrow> string \<Rightarrow> string \<Rightarrow> error + string" where
  "authenticate_scan L [] email password =
     Inl (ErrorWithStatus ''Authentication Error (Incorrect email or password)'' 401)"
| "authenticate_scan L ((uid, a) # items) email password =
     (if a ''email'' = Some email
      then (if truthy (a ''provider'')
            then Inl (ErrorWithStatus
                   (''You previously signed up using '' @ interp (a ''provider'') @
                    ''. Please use that to sign in instead.'') 403)
            else (case compare L password (a ''password_hash'') of
                    Inl e \<Rightarrow> Inl e
                  | Inr ok \<Rightarrow> if ok then Inr uid else authenticate_scan L items email password))
      else authenticate_scan L items email password)"

definition authenticateUser :: "lib \<Rightarrow> string \<Rightarrow> string \<Rightarrow> string \<Rightarrow> db \<Rightarrow> error + string" where
  "authenticateUser L table email password t =
     (case validateTableName table of
        Some e \<Rightarrow> Inl e
      | None \<Rightarrow> authenticate_scan L (Scan L t) email password)"

subsection \<open>\<^verbatim>\<open>authenticateOauthUser\<close>\<close>

fun oauth_scan :: "item list \<Rightarrow> string \<Rightarrow> string \<Rightarrow> (error + string) option" where
  "oauth_scan [] provider email = None"
| "oauth_scan ((uid, a) # items) provider email =
     (if a ''email'' = Some email
      then (if truthy (a ''password_hash'')
            then Some (Inl (ErrorWithStatus
                   ''You signed up with a password. Please sign in with your password instead.'' 403))
            else if a ''provider'' = Some provider then Some (Inr uid)
            else Some (Inl (ErrorWithStatus
                   (''You first signed up via '' @ interp (a ''provider'') @
                    ''. Please use that provider instead.'') 403)))
      else oauth_scan items provider email)"

definition authenticateOauthUser ::
  "lib \<Rightarrow> string \<Rightarrow> string \<Rightarrow> string \<Rightarrow> string \<Rightarrow> string \<Rightarrow> db \<Rightarrow> (error + string) \<times> db" where
  "authenticateOauthUser L table username provider email newIdVal t =
     (case validateTableName table of
        Some e \<Rightarrow> (Inl e, t)
      | None \<Rightarrow>
          (case oauth_scan (Scan L t) provider email of
             Some r \<Rightarrow> (r, t)
           | None \<Rightarrow>
               (let (uid, t') = databaseAddUser username email None (Some provider) newIdVal t
                in (Inr uid, t'))))"

subsection \<open>\<^verbatim>\<open>setUserInfo\<close> and \<^verbatim>\<open>getUserInfo\<close>\<close>

text \<open>The \<^verbatim>\<open>forEach\<close> that throws at the first field outside the allowed list.\<close>

fun check_fields :: "string list \<Rightarrow> string list \<Rightarrow> error option" where
  "check_fields allowed [] = None"
| "check_fields allowed (field # rest) =
     (if toLowerCase field \<notin> set allowed
      then Some (ErrorWithStatus (''User field '' @ [CHR 0x27] @ field @ [CHR 0x27] @ '' is invalid'') 400)
      else check_fields allowed rest)"

definition setUserInfo ::
  "string \<Rightarrow> string \<Rightarrow> (string \<times> string) list \<Rightarrow> db \<Rightarrow> (error + unit) \<times> db" where
  "setUserInfo table user_id info t =
     (case validateTableName table of
        Some e \<Rightarrow> (Inl e, t)
      | None \<Rightarrow>
          (case check_fields ADDITIONAL_USER_FIELDS (map fst info) of
             Some e \<Rightarrow> (Inl e, t)
           | None \<Rightarrow>
               (case databaseEditUser user_id info t of
                  (Inl e, t') \<Rightarrow> (Inl (ErrorWithStatus ''User Id does not exist'' 400), t')
                | (Inr u, t') \<Rightarrow> (Inr u, t'))))"

text \<open>
  The \<^verbatim>\<open>GetCommand\<close> gets \<^verbatim>\<open>fields\<close> as its projection. The store rejects a projection
  that names an attribute twice, and \<open>getUserInfo\<close> does not catch that error. Otherwise
  the command returns no item for an unknown key, and else the attributes named by the
  projection that the item has.
\<close>

definition getUserInfo :: "string \<Rightarrow> string \<Rightarrow> string \<Rightarrow> db \<Rightarrow> error + attrs" where
  "getUserInfo table user_id fields' t =
     (case validateTableName table of
        Some e \<Rightarrow> Inl e
      | None \<Rightarrow>
          (let fieldsArray = map trim (split_comma fields') in
           case check_fields RETRIEVABLE_USER_FIELDS fieldsArray of
             Some e \<Rightarrow> Inl e
           | None \<Rightarrow>
               if \<not> distinct fieldsArray then Inl (Error ''ValidationException'')
               else
               (case map_of t user_id of
                  None \<Rightarrow> Inl (ErrorWithStatus ''Invalid User Id'' 400)
                | Some a \<Rightarrow>
                    if list_all (\<lambda>f. a f = None) fieldsArray
                    then Inl (ErrorWithStatus
                           (''Uninitialised value/s: '' @ [CHR 0x27] @ fields' @ [CHR 0x27]) 400)
                    else Inr (a |` set fieldsArray))))"

subsection \<open>\<^verbatim>\<open>changePassword\<close> and \<^verbatim>\<open>deleteUser\<close>\<close>

definition changePassword ::
  "lib \<Rightarrow> string \<Rightarrow> string \<Rightarrow> string \<Rightarrow> string \<Rightarrow> string \<Rightarrow> db \<Rightarrow> (error + unit) \<times> db" where
  "changePassword L table email oldPassword newPassword salt t =
     (case validateTableName table of
        Some e \<Rightarrow> (Inl e, t)
      | None \<Rightarrow>
          if oldPassword = newPassword
          then (Inl (ErrorWithStatus ''New password cannot be the same as your old password'' 400), t)
          else (case authenticateUser L table email oldPassword t of
                  Inl err \<Rightarrow>
                    if statusCode err = Some 403
                    then (Inl (ErrorWithStatus
                           ''You cannot change your password as you signed in with a third-party provider.''
                           403), t)
                    else (Inl err, t)
                | Inr userId \<Rightarrow>
                    (let hashedPassword = bcrypt_hash L newPassword salt
                     in databaseEditUser userId [(''password_hash'', hashedPassword)] t)))"

text \<open>A \<^verbatim>\<open>DeleteCommand\<close> under the condition \<^verbatim>\<open>attribute_exists(user_id)\<close>.\<close>

definition deleteUser :: "string \<Rightarrow> string \<Rightarrow> db \<Rightarrow> (error + unit) \<times> db" where
  "deleteUser table userId t =
     (case validateTableName table of
        Some e \<Rightarrow> (Inl e, t)
      | None \<Rightarrow>
          if userId \<in> set (map fst t) then (Inr (), AList.delete userId t)
          else (Inl (ErrorWithStatus ''User Id does not exist'' 400), t))"

subsection \<open>\<^verbatim>\<open>sendPasswordResetToken\<close>\<close>

text \<open>The scan leaves \<^verbatim>\<open>userId\<close> at its initial \<^verbatim>\<open>""\<close> when no item has the email.\<close>

fun token_scan :: "item list \<Rightarrow> string \<Rightarrow> error + string" where
  "token_scan [] email = Inr []"
| "token_scan ((uid, a) # items) email =
     (if a ''email'' = Some email
      then (if truthy (a ''provider'')
            then Inl (ErrorWithStatus
                   (''You previously signed up using '' @ interp (a ''provider'') @
                    '', so you do not have a password to reset.'') 403)
            else Inr uid)
      else token_scan items email)"

text \<open>
  \<open>token\<close> is the hexadecimal string of \<^verbatim>\<open>crypto.randomBytes(10)\<close>, \<open>now\<close> the clock
  reading, \<open>sent\<close> the outcome of the mail.
\<close>

definition sendPasswordResetToken ::
  "lib \<Rightarrow> string \<Rightarrow> string \<Rightarrow> string \<Rightarrow> string \<Rightarrow> int \<Rightarrow> bool \<Rightarrow> db \<Rightarrow> (error + string) \<times> db" where
  "sendPasswordResetToken L table email token salt now sent t =
     (case validateTableName table of
        Some e \<Rightarrow> (Inl e, t)
      | None \<Rightarrow>
          if \<not> validate L email then (Inl (ErrorWithStatus ''Email does not exist'' 400), t)
          else (case token_scan (Scan L t) email of
                  Inl e \<Rightarrow> (Inl e, t)
                | Inr userId \<Rightarrow>
                    if userId = [] then (Inl (ErrorWithStatus ''Email does not exist'' 400), t)
                    else
                      (let hashedToken = bcrypt_hash L token salt;
                           expiryStr = toISOString L (nextHour L now)
                       in case databaseEditUser userId
                                 [(''resetToken'', hashedToken), (''tokenExpiry'', expiryStr)] t of
                            (Inl e, t') \<Rightarrow> (Inl e, t')
                          | (Inr u, t') \<Rightarrow>
                              (case sendTokenEmail sent of
                                 Some e \<Rightarrow> (Inl e, t')
                               | None \<Rightarrow> (Inr token, t')))))"

subsection \<open>\<^verbatim>\<open>resetPassword\<close>\<close>

text \<open>\<^verbatim>\<open>now >= expiry\<close>; a comparison with an invalid date is false.\<close>

definition expired :: "lib \<Rightarrow> int \<Rightarrow> string \<Rightarrow> bool" where
  "expired L now tokenExpiry = (case parseDate L tokenExpiry of None \<Rightarrow> False | Some e \<Rightarrow> e \<le> now)"

text \<open>
  The loop of \<^verbatim>\<open>resetPassword\<close> over the scanned items; \<open>t\<close> is the whole table, which
  the expiry branch updates.
\<close>

fun reset_scan ::
  "lib \<Rightarrow> item list \<Rightarrow> db \<Rightarrow> string \<Rightarrow> string \<Rightarrow> string \<Rightarrow> int \<Rightarrow> (error + string) \<times> db" where
  "reset_scan L [] t email token newPassword now = (Inr [], t)"
| "reset_scan L ((uid, a) # items) t email token newPassword now =
     (if a ''email'' = Some email
      then (if truthy (a ''provider'')
            then (Inl (ErrorWithStatus
                    (''You previously signed up using '' @ interp (a ''provider'') @
                     '', so you do not have a password to reset.'') 403), t)
            else (case compare L newPassword (a ''password_hash'') of
                    Inl e \<Rightarrow> (Inl e, t)
                  | Inr same \<Rightarrow>
                      if same
                      then (Inl (ErrorWithStatus
                              ''New password cannot be the same as your old password'' 400), t)
                      else if a ''resetToken'' = None \<or> a ''tokenExpiry'' = None \<or>
                              a ''resetToken'' = Some [] \<or> a ''tokenExpiry'' = Some []
                      then (Inl (ErrorWithStatus ''Invalid Token'' 400), t)
                      else if expired L now (interp (a ''tokenExpiry''))
                      then (case databaseEditUser uid [(''resetToken'', []), (''tokenExpiry'', [])] t of
                              (Inl e, t') \<Rightarrow> (Inl e, t')
                            | (Inr u, t') \<Rightarrow> (Inl (ErrorWithStatus ''Invalid Token'' 400), t'))
                      else (case compare L token (a ''resetToken'') of
                              Inl e \<Rightarrow> (Inl e, t)
                            | Inr ok \<Rightarrow>
                                if \<not> ok then (Inl (ErrorWithStatus ''Invalid Token'' 400), t)
                                else (Inr uid, t))))
      else reset_scan L items t email token newPassword now)"

definition resetPassword ::
  "lib \<Rightarrow> string \<Rightarrow> string \<Rightarrow> string \<Rightarrow> string \<Rightarrow> string \<Rightarrow> int \<Rightarrow> bool \<Rightarrow> db \<Rightarrow> (error + unit) \<times> db" where
  "resetPassword L table email token newPassword salt now sent t =
     (case validateTableName table of
        Some e \<Rightarrow> (Inl e, t)
      | None \<Rightarrow>
          if \<not> validate L email then (Inl (ErrorWithStatus ''Email does not exist'' 400), t)
          else (case reset_scan L (Scan L t) t email token newPassword now of
                  (Inl e, t') \<Rightarrow> (Inl e, t')
                | (Inr userId, t') \<Rightarrow>
                    if userId = [] then (Inl (ErrorWithStatus ''Email does not exist'' 400), t')
                    else
                      (let hashedPassword = bcrypt_hash L newPassword salt
                       in case databaseEditUser userId
                                 [(''resetToken'', []), (''tokenExpiry'', []),
                                  (''password_hash'', hashedPassword)] t' of
                            (Inl e, t'') \<Rightarrow> (Inl e, t'')
                          | (Inr u, t'') \<Rightarrow>
                              (case sendPasswordResetEmail sent of
                                 Some e \<Rightarrow> (Inl e, t'')
                               | None \<Rightarrow> (Inr (), t'')))))"

subsection \<open>Sequences of calls\<close>

text \<open>
  A call of the engine with its arguments and with what the environment contributes to
  it: the salt of a hash, the identifier or token drawn, the clock, the outcome of a mail.
\<close>

datatype call =
    Register string string string string string string
  | Authenticate string string string
  | AuthenticateOrRegisterOAuth string string string string string
  | SetProfile string string "(string \<times> string) list"
  | GetProfile string string string
  | ChangePassword string string string string string
  | DeleteUser string string
  | IssueResetToken string string string string int bool
  | ResetPassword string string string string string int bool

fun step :: "lib \<Rightarrow> call \<Rightarrow> db \<Rightarrow> db" where
  "step L (Register table username password email salt newIdVal) t =
     snd (registerUser L table username password email salt newIdVal t)"
| "step L (Authenticate table email password) t = t"
| "step L (AuthenticateOrRegisterOAuth table username provider email newIdVal) t =
     snd (authenticateOauthUser L table username provider email newIdVal t)"
| "step L (SetProfile table user_id info) t = snd (setUserInfo table user_id info t)"
| "step L (GetProfile table user_id fields') t = t"
| "step L (ChangePassword table email oldPassword newPassword salt) t =
     snd (changePassword L table email oldPassword newPassword salt t)"
| "step L (DeleteUser table userId) t = snd (deleteUser table userId t)"
| "step L (IssueResetToken table email token salt now sent) t =
     snd (sendPasswordResetToken L table email token salt now sent t)"
| "step L (ResetPassword table email token newPassword salt now sent) t =
     snd (resetPassword L table email token newPassword salt now sent t)"

fun run :: "lib \<Rightarrow> call list \<Rightarrow> db \<Rightarrow> db" where
  "run L [] t = t"
| "run L (c # cs) t = run L cs (step L c t)"

text \<open>The identifier that a call may put a new item under.\<close>

fun new_id :: "call \<Rightarrow> string option" where
  "new_id (Register table username password email salt newIdVal) = Some newIdVal"
| "new_id (AuthenticateOrRegisterOAuth table username provider email newIdVal) = Some newIdVal"
| "new_id c = None"

subsection \<open>Notions used in the statements\<close>

text \<open>The item that a scan for an email meets first.\<close>

definition find_by_email :: "db \<Rightarrow> string \<Rightarrow> item option" where
  "find_by_email t email = find (\<lambda>(uid, a). a ''email'' = Some email) t"

text \<open>
  A small instance of the libraries and a table with one password account and one OAuth
  account, on which the statements below are instantiated. The hasher of the instance
  reads the first 72 bytes of a secret, as bcrypt does; the first page of its store holds
  two items.
\<close>

definition demo_lib :: lib where
  "demo_lib =
     \<lparr> validate = (\<lambda>e. CHR ''@'' \<in> set e),
       bcrypt_hash = (\<lambda>s salt. ''$2a$10$'' @ take 72 s),
       bcrypt_compare = (\<lambda>s d. d = ''$2a$10$'' @ take 72 s),
       toISOString = (\<lambda>x. if x = 3600000 then ''1970-01-01T01:00:00.000Z'' else ''other''),
       parseDate = (\<lambda>s. if s = ''1970-01-01T01:00:00.000Z'' then Some 3600000 else None),
       nextHour = (\<lambda>x. x + 3600000),
       page_items = (\<lambda>t. 2) \<rparr>"

text \<open>The same libraries over a store whose first page holds one item.\<close>

definition short_page_lib :: lib where
  "short_page_lib = demo_lib \<lparr> page_items := (\<lambda>t. 1) \<rparr>"

definition demo_db :: db where
  "demo_db =
     [(''id1'', new_item ''alice'' ''a@x.com'' (Some ''$2a$10$pw1'') None),
      (''id2'', new_item ''bob'' ''b@x.com'' None (Some ''google''))]"

text \<open>The emails stored in the table, in scan order.\<close>

definition emails :: "db \<Rightarrow> string list" where
  "emails t = List.map_filter (\<lambda>(uid, a). a ''email'') t"

text \<open>A table in which the password account has a pending reset.\<close>

definition demo_alice :: attrs where
  "demo_alice =
     (new_item ''alice'' ''a@x.com'' (Some ''$2a$10$pw1'') None)
       (''resetToken'' \<mapsto> ''$2a$10$tok1'', ''tokenExpiry'' \<mapsto> ''1970-01-01T01:00:00.000Z'')"

definition demo_pending :: db where
  "demo_pending =
     [(''id2'', new_item ''bob'' ''b@x.com'' None (Some ''google'')), (''id1'', demo_alice)]"

text \<open>
  Two passwords of 73 bytes that agree on the first 72, and a table whose one account
  stores the hash of the first of them.
\<close>

definition long_old :: string where
  "long_old = replicate 72 (CHR ''x'') @ ''1''"

definition long_new :: string where
  "long_new = replicate 72 (CHR ''x'') @ ''2''"

definition long_db :: db where
  "long_db =
     [(''id1'', new_item ''alice'' ''a@x.com'' (Some (bcrypt_hash demo_lib long_old ''s0'')) None)]"

text \<open>
  The authentication mode of an item: it stores \<^verbatim>\<open>password_hash\<close> and no \<^verbatim>\<open>provider\<close>, or
  \<^verbatim>\<open>provider\<close> and no \<^verbatim>\<open>password_hash\<close>. A table is in order when its keys are distinct,
  as DynamoDB keeps them, and every item has one mode. Two versions of an item have the
  same mode when \<^verbatim>\<open>provider\<close> is the same and \<^verbatim>\<open>password_hash\<close> is stored in both or in
  neither. A call has a fresh identifier when the one it may put a new item under is not
  a key of the table.
\<close>

definition one_mode :: "attrs \<Rightarrow> bool" where
  "one_mode a =
     ((a ''password_hash'' \<noteq> None \<and> a ''provider'' = None) \<or>
      (a ''provider'' \<noteq> None \<and> a ''password_hash'' = None))"

definition store_ok :: "db \<Rightarrow> bool" where
  "store_ok t = (distinct (map fst t) \<and> list_all (\<lambda>(uid, a). one_mode a) t)"

definition same_mode :: "attrs \<Rightarrow> attrs \<Rightarrow> bool" where
  "same_mode a a' =
     (a' ''provider'' = a ''provider'' \<and>
      (a' ''password_hash'' = None) = (a ''password_hash'' = None))"

definition fresh_id :: "call \<Rightarrow> db \<Rightarrow> bool" where
  "fresh_id c t = (case new_id c of None \<Rightarrow> True | Some i \<Rightarrow> i \<notin> set (map fst t))"

text \<open>
  The ways in which a call can change the table: not at all, by a put of an item with one
  mode, by an update that keeps the mode of the item it addresses, or by a delete.
\<close>

definition safe_edit :: "db \<Rightarrow> string \<Rightarrow> (attrs \<Rightarrow> attrs) \<Rightarrow> bool" where
  "safe_edit t uid g = (\<forall>a. map_of t uid = Some a \<longrightarrow> same_mode a (g a))"

definition effect :: "string option \<Rightarrow> db \<Rightarrow> db \<Rightarrow> bool" where
  "effect i t t' =
     (t' = t \<or>
      (\<exists>j v. i = Some j \<and> one_mode v \<and> t' = AList.update j v t) \<or>
      (\<exists>uid g. safe_edit t uid g \<and> t' = AList.map_entry uid g t) \<or>
      (\<exists>uid. t' = AList.delete uid t))"

section \<open>Properties\<close>

subsection \<open>The scanned page\<close>

lemma emails_Nil [simp]: "emails [] = []"
  by (simp add: emails_def map_filter_simps)

lemma emails_Cons [simp]:
  "emails ((uid, a) # t) = (case a ''email'' of None \<Rightarrow> emails t | Some e \<Rightarrow> e # emails t)"
  by (simp add: emails_def map_filter_simps split: option.splits)

lemma find_by_email_Nil [simp]: "find_by_email [] email = None"
  by (simp add: find_by_email_def)

lemma find_by_email_Cons [simp]:
  "find_by_email ((uid, a) # t) email =
     (if a ''email'' = Some email then Some (uid, a) else find_by_email t email)"
  by (simp add: find_by_email_def)

lemma find_by_email_mem:
  "find_by_email t email = Some (uid, a) \<Longrightarrow> (uid, a) \<in> set t \<and> a ''email'' = Some email"
  by (induction t) (auto split: if_splits)

lemma update_fresh: "k \<notin> set (map fst t) \<Longrightarrow> AList.update k v t = t @ [(k, v)]"
  by (induction t) auto

lemma set_Scan: "set (Scan L t) \<subseteq> set t"
  by (simp add: Scan_def set_take_subset)

lemma Scan_demo [simp]:
  "Scan demo_lib demo_db = demo_db" "Scan demo_lib demo_pending = demo_pending"
  "Scan demo_lib [] = []"
  by (simp_all add: Scan_def demo_lib_def demo_db_def demo_pending_def)

subsection \<open>Field validation\<close>

lemma check_fields_None:
  "check_fields allowed fs = None \<longleftrightarrow> (\<forall>f\<in>set fs. toLowerCase f \<in> set allowed)"
  by (induction fs) auto

lemma check_fields_Some:
  "check_fields allowed fs = Some e \<Longrightarrow> \<exists>m. e = ErrorWithStatus m 400"
  by (induction fs) (auto split: if_splits)

text \<open>
  Claim C7. If some key of the field map is outside \<open>ADDITIONAL_USER_FIELDS\<close> (compared
  after lowercasing), \<open>setUserInfo\<close> fails with status 400 and returns the table as it
  was: no field is written, whatever the other keys, the user id and the table name are.
\<close>

theorem setUserInfo_all_or_nothing:
  assumes "\<exists>f\<in>set (map fst info). toLowerCase f \<notin> set ADDITIONAL_USER_FIELDS"
  shows "\<exists>m. setUserInfo table user_id info t = (Inl (ErrorWithStatus m 400), t)"
proof (cases "table = TABLE_NAME")
  case False
  then show ?thesis by (simp add: setUserInfo_def validateTableName_def)
next
  case True
  from assms have "check_fields ADDITIONAL_USER_FIELDS (map fst info) \<noteq> None"
    using check_fields_None by blast
  then obtain e where e: "check_fields ADDITIONAL_USER_FIELDS (map fst info) = Some e"
    by blast
  then obtain m where "e = ErrorWithStatus m 400"
    using check_fields_Some by blast
  with e True show ?thesis
    by (simp add: setUserInfo_def validateTableName_def)
qed

theorem setUserInfo_all_or_nothing_witness:
  "(\<exists>f\<in>set (map fst [(''username'', ''carol''), (''password_hash'', ''x'')]).
      toLowerCase f \<notin> set ADDITIONAL_USER_FIELDS) \<and>
   (\<exists>m. setUserInfo TABLE_NAME ''id1'' [(''username'', ''carol''), (''password_hash'', ''x'')] demo_db
        = (Inl (ErrorWithStatus m 400), demo_db))"
proof -
  have h: "\<exists>f\<in>set (map fst [(''username'', ''carol''), (''password_hash'', ''x'')]).
      toLowerCase f \<notin> set ADDITIONAL_USER_FIELDS"
    by (simp add: toLowerCase_def lower_char_def ADDITIONAL_USER_FIELDS_def)
  show ?thesis
    using h setUserInfo_all_or_nothing [OF h, of TABLE_NAME "''id1''" demo_db] by blast
qed

subsection \<open>Table name\<close>

text \<open>
  Claim C9, as the code has it. The table name is an argument of every call and
  \<open>validateTableName\<close> compares it with \<open>TABLE_NAME\<close> first: each of the nine operations,
  addressed with another name, fails with status 400 and the message
  \<^verbatim>\<open>Invalid Table Name\<close>, and leaves the table as it was.
\<close>

theorem invalid_table_name_per_call:
  assumes "table \<noteq> TABLE_NAME"
  shows "registerUser L table username password email salt newIdVal t =
           (Inl (ErrorWithStatus ''Invalid Table Name'' 400), t) \<and>
         authenticateUser L table email password t =
           Inl (ErrorWithStatus ''Invalid Table Name'' 400) \<and>
         authenticateOauthUser L table username provider email newIdVal t =
           (Inl (ErrorWithStatus ''Invalid Table Name'' 400), t) \<and>
         setUserInfo table user_id info t =
           (Inl (ErrorWithStatus ''Invalid Table Name'' 400), t) \<and>
         getUserInfo table user_id fields' t =
           Inl (ErrorWithStatus ''Invalid Table Name'' 400) \<and>
         changePassword L table email oldPassword newPassword salt t =
           (Inl (ErrorWithStatus ''Invalid Table Name'' 400), t) \<and>
         deleteUser table user_id t =
           (Inl (ErrorWithStatus ''Invalid Table Name'' 400), t) \<and>
         sendPasswordResetToken L table email token salt now sent t =
           (Inl (ErrorWithStatus ''Invalid Table Name'' 400), t) \<and>
         resetPassword L table email token newPassword salt now sent t =
           (Inl (ErrorWithStatus ''Invalid Table Name'' 400), t)"
  using assms
  by (simp add: validateTableName_def registerUser_def authenticateUser_def
      authenticateOauthUser_def setUserInfo_def getUserInfo_def changePassword_def
      deleteUser_def sendPasswordResetToken_def resetPassword_def)

theorem invalid_table_name_per_call_witness:
  "''Users'' \<noteq> TABLE_NAME \<and>
   deleteUser ''Users'' ''id1'' demo_db = (Inl (ErrorWithStatus ''Invalid Table Name'' 400), demo_db)"
proof -
  have h: "''Users'' \<noteq> TABLE_NAME" by (simp add: TABLE_NAME_def)
  show ?thesis
    using h invalid_table_name_per_call [OF h, of demo_lib] by simp
qed

text \<open>
  Claim C9 as the specification words it does not hold: the same registration fails with
  status 400 on account of the name it is addressed with, and succeeds under the
  configured name.
\<close>

theorem table_name_counterexample:
  "fst (registerUser demo_lib ''Users'' ''alice'' ''pw1'' ''a@x.com'' ''salt'' ''id9'' []) =
     Inl (ErrorWithStatus ''Invalid Table Name'' 400) \<and>
   fst (registerUser demo_lib TABLE_NAME ''alice'' ''pw1'' ''a@x.com'' ''salt'' ''id9'' []) =
     Inr ''id9''"
  by (simp add: registerUser_def validateTableName_def TABLE_NAME_def demo_lib_def
      databaseAddUser_def Scan_def)

subsection \<open>Password sign-in\<close>

lemma authenticate_scan_generic:
  "\<forall>(uid, a)\<in>set t. a ''email'' = Some email \<longrightarrow>
      \<not> truthy (a ''provider'') \<and> (\<exists>h. a ''password_hash'' = Some h \<and> \<not> bcrypt_compare L password h)
   \<Longrightarrow> authenticate_scan L t email password =
        Inl (ErrorWithStatus ''Authentication Error (Incorrect email or password)'' 401)"
  by (induction t) (auto simp: compare_def)

text \<open>
  Claim C2. If no item has the email, or the items that the scan finds with it are
  password accounts (no provider, a stored \<^verbatim>\<open>password_hash\<close>) against which the password
  does not verify, \<open>authenticateUser\<close> ends in the one \<^verbatim>\<open>throw\<close> after the scan: status 401
  with the same message in both cases. There is no failure of its own for an email that
  is not found.
\<close>

theorem authenticateUser_existence_hiding:
  assumes "(\<forall>(uid, a)\<in>set t. a ''email'' \<noteq> Some email) \<or>
           (\<forall>(uid, a)\<in>set t. a ''email'' = Some email \<longrightarrow>
              \<not> truthy (a ''provider'') \<and>
              (\<exists>h. a ''password_hash'' = Some h \<and> \<not> bcrypt_compare L password h))"
  shows "authenticateUser L TABLE_NAME email password t =
           Inl (ErrorWithStatus ''Authentication Error (Incorrect email or password)'' 401)"
proof -
  from assms have "\<forall>(uid, a)\<in>set t. a ''email'' = Some email \<longrightarrow>
      \<not> truthy (a ''provider'') \<and> (\<exists>h. a ''password_hash'' = Some h \<and> \<not> bcrypt_compare L password h)"
    by fastforce
  with set_Scan [of L t] have "\<forall>(uid, a)\<in>set (Scan L t). a ''email'' = Some email \<longrightarrow>
      \<not> truthy (a ''provider'') \<and> (\<exists>h. a ''password_hash'' = Some h \<and> \<not> bcrypt_compare L password h)"
    by blast
  then show ?thesis
    by (simp add: authenticateUser_def validateTableName_def authenticate_scan_generic)
qed

theorem authenticateUser_existence_hiding_witness:
  "find_by_email demo_db ''nobody@x.com'' = None \<and>
   map_option fst (find_by_email demo_db ''a@x.com'') = Some ''id1'' \<and>
   authenticateUser demo_lib TABLE_NAME ''nobody@x.com'' ''pw1'' demo_db =
     authenticateUser demo_lib TABLE_NAME ''a@x.com'' ''wrong'' demo_db \<and>
   authenticateUser demo_lib TABLE_NAME ''a@x.com'' ''wrong'' demo_db =
     Inl (ErrorWithStatus ''Authentication Error (Incorrect email or password)'' 401)"
proof -
  have h1: "\<forall>(uid, a)\<in>set demo_db. a ''email'' \<noteq> Some ''nobody@x.com''"
    by (simp add: demo_db_def new_item_def)
  have h2: "\<forall>(uid, a)\<in>set demo_db. a ''email'' = Some ''a@x.com'' \<longrightarrow>
      \<not> truthy (a ''provider'') \<and>
      (\<exists>h. a ''password_hash'' = Some h \<and> \<not> bcrypt_compare demo_lib ''wrong'' h)"
    by (simp add: demo_db_def new_item_def truthy_def demo_lib_def)
  have f: "find_by_email demo_db ''nobody@x.com'' = None \<and>
           map_option fst (find_by_email demo_db ''a@x.com'') = Some ''id1''"
    by (simp add: find_by_email_def demo_db_def new_item_def)
  show ?thesis
    using h1 h2 f
      authenticateUser_existence_hiding [of demo_db "''nobody@x.com''" demo_lib "''pw1''"]
      authenticateUser_existence_hiding [of demo_db "''a@x.com''" demo_lib "''wrong''"]
    by simp
qed

subsection \<open>OAuth sign-in\<close>

lemma oauth_scan_find:
  "oauth_scan t provider email =
     (case find_by_email t email of
        None \<Rightarrow> None
      | Some (uid, a) \<Rightarrow>
          Some (if truthy (a ''password_hash'')
            then Inl (ErrorWithStatus
                   ''You signed up with a password. Please sign in with your password instead.'' 403)
            else if a ''provider'' = Some provider then Inr uid
            else Inl (ErrorWithStatus
                   (''You first signed up via '' @ interp (a ''provider'') @
                    ''. Please use that provider instead.'') 403)))"
  by (induction t) (auto simp: find_by_email_def)

text \<open>
  For an item on the scanned page \<open>authenticateOauthUser\<close> does what its documentation
  says: the first such item with the email decides.
\<close>

lemma authenticateOauthUser_page_cases:
  "authenticateOauthUser L TABLE_NAME username provider email newIdVal t =
     (case find_by_email (Scan L t) email of
        Some (uid, a) \<Rightarrow>
          if truthy (a ''password_hash'')
          then (Inl (ErrorWithStatus
                  ''You signed up with a password. Please sign in with your password instead.'' 403), t)
          else if a ''provider'' \<noteq> Some provider
          then (Inl (ErrorWithStatus
                  (''You first signed up via '' @ interp (a ''provider'') @
                   ''. Please use that provider instead.'') 403), t)
          else (Inr uid, t)
      | None \<Rightarrow>
          (Inr newIdVal,
           AList.update newIdVal (new_item username email None (Some provider)) t))"
  by (simp add: authenticateOauthUser_def validateTableName_def oauth_scan_find
      databaseAddUser_def split: option.splits)

text \<open>
  Beyond the scanned page the lookup is missed, whatever the size of the page: when the
  table holds the email but the first page does not, a new item is put under the new
  identifier, whatever account holds the email.
\<close>

lemma authenticateOauthUser_misses_later_pages:
  assumes "find_by_email (Scan L t) email = None" and "find_by_email t email = Some (uid, a)"
    and "newIdVal \<notin> set (map fst t)"
  shows "authenticateOauthUser L TABLE_NAME username provider email newIdVal t =
           (Inr newIdVal, t @ [(newIdVal, new_item username email None (Some provider))])"
  using assms(1,3) by (simp add: authenticateOauthUser_page_cases update_fresh)

text \<open>
  Claim C6 states the four cases for every table: a password account with the email gives
  status 403, an OAuth account with another provider gives status 403, the same provider
  returns the stored \<^verbatim>\<open>user_id\<close>, and only when no item has the email is a new item put.
  That is also what the documentation of \<open>authenticateOauthUser\<close> promises. The function
  misses it for a table that does not fit on one page of the scan. In \<open>demo_pending\<close> the
  password account with \<^verbatim>\<open>a@x.com\<close> is the second item and in \<open>demo_db\<close> the account that
  signed up with \<^verbatim>\<open>google\<close> under \<^verbatim>\<open>b@x.com\<close> is the second item; over a store whose first
  page ends after the first item, an OAuth sign-in with \<^verbatim>\<open>a@x.com\<close> and one with
  \<^verbatim>\<open>b@x.com\<close> and the provider \<^verbatim>\<open>github\<close> both succeed with a new identifier and put a
  second item with the email.
\<close>

theorem authenticateOauthUser_beyond_first_page:
  "map_option fst (find_by_email demo_pending ''a@x.com'') = Some ''id1'' \<and>
   truthy (demo_alice ''password_hash'') \<and>
   authenticateOauthUser short_page_lib TABLE_NAME ''al'' ''google'' ''a@x.com'' ''id3'' demo_pending =
     (Inr ''id3'', demo_pending @ [(''id3'', new_item ''al'' ''a@x.com'' None (Some ''google''))]) \<and>
   map_option (\<lambda>(uid, a). (uid, a ''provider'')) (find_by_email demo_db ''b@x.com'') =
     Some (''id2'', Some ''google'') \<and>
   authenticateOauthUser short_page_lib TABLE_NAME ''bo'' ''github'' ''b@x.com'' ''id3'' demo_db =
     (Inr ''id3'', demo_db @ [(''id3'', new_item ''bo'' ''b@x.com'' None (Some ''github''))])"
proof -
  have p: "Scan short_page_lib demo_pending = [(''id2'', new_item ''bob'' ''b@x.com'' None (Some ''google''))]"
    "Scan short_page_lib demo_db = [(''id1'', new_item ''alice'' ''a@x.com'' (Some ''$2a$10$pw1'') None)]"
    by (simp_all add: Scan_def short_page_lib_def demo_lib_def demo_pending_def demo_db_def)
  have e: "new_item ''bob'' ''b@x.com'' None (Some ''google'') ''email'' = Some ''b@x.com''"
    "new_item ''alice'' ''a@x.com'' (Some ''$2a$10$pw1'') None ''email'' = Some ''a@x.com''"
    "demo_alice ''email'' = Some ''a@x.com''"
    "demo_alice ''password_hash'' = Some ''$2a$10$pw1''"
    "new_item ''bob'' ''b@x.com'' None (Some ''google'') ''provider'' = Some ''google''"
    by (simp_all add: new_item_def demo_alice_def)
  have f: "find_by_email demo_pending ''a@x.com'' = Some (''id1'', demo_alice)"
    "find_by_email demo_db ''b@x.com'' =
       Some (''id2'', new_item ''bob'' ''b@x.com'' None (Some ''google''))"
    by (simp_all add: demo_pending_def demo_db_def e)
  have c1: "authenticateOauthUser short_page_lib TABLE_NAME ''al'' ''google'' ''a@x.com'' ''id3''
              demo_pending =
     (Inr ''id3'', demo_pending @ [(''id3'', new_item ''al'' ''a@x.com'' None (Some ''google''))])"
    by (simp add: authenticateOauthUser_page_cases p e) (simp add: demo_pending_def)
  have c2: "authenticateOauthUser short_page_lib TABLE_NAME ''bo'' ''github'' ''b@x.com'' ''id3''
              demo_db =
     (Inr ''id3'', demo_db @ [(''id3'', new_item ''bo'' ''b@x.com'' None (Some ''github''))])"
    by (simp add: authenticateOauthUser_page_cases p e) (simp add: demo_db_def)
  from f e c1 c2 show ?thesis by (simp add: truthy_def)
qed

subsection \<open>Registration\<close>

lemma find_by_email_None: "find_by_email t email = None \<longleftrightarrow> email \<notin> set (emails t)"
  by (induction t) (auto split: option.splits if_splits)

lemma emails_update:
  "it ''email'' = Some e \<Longrightarrow>
   set (emails (AList.update k it t)) \<subseteq> insert e (set (emails t))"
  by (induction t) (auto split: option.splits)

lemma distinct_emails_update:
  "it ''email'' = Some e \<Longrightarrow> e \<notin> set (emails t) \<Longrightarrow> distinct (emails t) \<Longrightarrow>
   distinct (emails (AList.update k it t))"
proof (induction t)
  case Nil
  then show ?case by simp
next
  case (Cons p t)
  obtain k' b where p: "p = (k', b)" by (cases p)
  show ?case
  proof (cases "k' = k")
    case True
    with Cons.prems p show ?thesis by (auto split: option.splits)
  next
    case False
    from Cons.prems p have e: "e \<notin> set (emails t)" and d: "distinct (emails t)"
      by (auto split: option.splits)
    have sub: "set (emails (AList.update k it t)) \<subseteq> insert e (set (emails t))"
      using Cons.prems(1) by (rule emails_update)
    from Cons.IH [OF Cons.prems(1) e d] sub Cons.prems p False show ?thesis
      by (auto split: option.splits)
  qed
qed

lemma register_scan_find:
  "register_scan t email =
     (case find_by_email t email of
        None \<Rightarrow> None
      | Some (uid, a) \<Rightarrow>
          Some (ErrorWithStatus
             (''Email has been taken.'' @
                (if truthy (a ''provider'')
                 then '' Did you mean to sign in using '' @ interp (a ''provider'') @ ''?''
                 else [])) 409))"
  by (induction t) auto

text \<open>
  What \<open>registerUser\<close> achieves on the page it scans: an item there with the email makes
  the call fail with the table as it was, with status 409 once the email has passed
  \<^verbatim>\<open>EmailValidator.validate\<close>; and while the whole table is on the first page, a
  registration keeps the stored emails distinct.
\<close>

lemma registerUser_conflict_on_page:
  assumes "find_by_email (Scan L t) email = Some (uid, a)"
  shows "(\<exists>e. registerUser L TABLE_NAME username password email salt newIdVal t = (Inl e, t)) \<and>
         (validate L email \<longrightarrow>
            registerUser L TABLE_NAME username password email salt newIdVal t =
              (Inl (ErrorWithStatus
                 (''Email has been taken.'' @
                    (if truthy (a ''provider'')
                     then '' Did you mean to sign in using '' @ interp (a ''provider'') @ ''?''
                     else [])) 409), t))"
  using assms
  by (simp add: registerUser_def validateTableName_def register_scan_find)

lemma registerUser_emails:
  "Scan L t = t \<Longrightarrow> distinct (emails t) \<Longrightarrow>
   distinct (emails (snd (registerUser L table username password email salt newIdVal t)))"
  by (auto simp: registerUser_def register_scan_find databaseAddUser_def new_item_def
      find_by_email_None intro!: distinct_emails_update split: option.splits)

text \<open>
  Beyond the scanned page the check is missed, whatever the size of the page: when the
  table holds the email but the first page does not, the registration succeeds and the
  email is stored twice.
\<close>

lemma emails_append: "emails (t @ [(k, v)]) = emails t @ (case v ''email'' of None \<Rightarrow> [] | Some e \<Rightarrow> [e])"
  by (induction t) (auto split: option.splits)

lemma registerUser_misses_later_pages:
  assumes "validate L email" and "find_by_email (Scan L t) email = None"
    and "email \<in> set (emails t)" and "newIdVal \<notin> set (map fst t)"
  shows "registerUser L TABLE_NAME username password email salt newIdVal t =
           (Inr newIdVal,
            t @ [(newIdVal, new_item username email (Some (bcrypt_hash L password salt)) None)]) \<and>
         \<not> distinct (emails
            (t @ [(newIdVal, new_item username email (Some (bcrypt_hash L password salt)) None)]))"
proof -
  have "new_item username email (Some (bcrypt_hash L password salt)) None ''email'' = Some email"
    by (simp add: new_item_def)
  with assms(3) have "\<not> distinct (emails
            (t @ [(newIdVal, new_item username email (Some (bcrypt_hash L password salt)) None)]))"
    by (simp add: emails_append)
  with assms(1,2,4) show ?thesis
    by (simp add: registerUser_def validateTableName_def register_scan_find databaseAddUser_def
        update_fresh)
qed

text \<open>
  Claim C3 states that with an item holding the email \<open>registerUser\<close> fails with status
  409 and inserts nothing, for every table, so that registrations never store an email
  twice. The documentation of \<open>registerUser\<close> says the same: the email must be unique. The
  function misses it for a table that does not fit on one page of the scan. In \<open>demo_db\<close>
  the item with \<^verbatim>\<open>b@x.com\<close> is the second one; over a store whose first page ends after
  the first item, a registration with \<^verbatim>\<open>b@x.com\<close> returns a new identifier and stores a
  second item with that email.
\<close>

theorem registerUser_beyond_first_page:
  "validate short_page_lib ''b@x.com'' \<and>
   map_option fst (find_by_email demo_db ''b@x.com'') = Some ''id2'' \<and>
   distinct (emails demo_db) \<and>
   registerUser short_page_lib TABLE_NAME ''eve'' ''pw2'' ''b@x.com'' ''s1'' ''id3'' demo_db =
     (Inr ''id3'',
      demo_db @ [(''id3'', new_item ''eve'' ''b@x.com'' (Some ''$2a$10$pw2'') None)]) \<and>
   emails (demo_db @ [(''id3'', new_item ''eve'' ''b@x.com'' (Some ''$2a$10$pw2'') None)]) =
     [''a@x.com'', ''b@x.com'', ''b@x.com'']"
proof -
  have p: "Scan short_page_lib demo_db =
             [(''id1'', new_item ''alice'' ''a@x.com'' (Some ''$2a$10$pw1'') None)]"
    by (simp add: Scan_def short_page_lib_def demo_lib_def demo_db_def)
  have e: "new_item ''bob'' ''b@x.com'' None (Some ''google'') ''email'' = Some ''b@x.com''"
    "new_item ''alice'' ''a@x.com'' (Some ''$2a$10$pw1'') None ''email'' = Some ''a@x.com''"
    "new_item ''eve'' ''b@x.com'' (Some ''$2a$10$pw2'') None ''email'' = Some ''b@x.com''"
    by (simp_all add: new_item_def)
  have v: "validate short_page_lib ''b@x.com''"
    by (simp add: short_page_lib_def demo_lib_def)
  have h: "bcrypt_hash short_page_lib ''pw2'' ''s1'' = ''$2a$10$pw2''"
    by (simp add: short_page_lib_def demo_lib_def)
  have f: "find_by_email demo_db ''b@x.com'' =
             Some (''id2'', new_item ''bob'' ''b@x.com'' None (Some ''google''))"
    by (simp add: demo_db_def e)
  have c: "registerUser short_page_lib TABLE_NAME ''eve'' ''pw2'' ''b@x.com'' ''s1'' ''id3'' demo_db =
     (Inr ''id3'',
      demo_db @ [(''id3'', new_item ''eve'' ''b@x.com'' (Some ''$2a$10$pw2'') None)])"
    using v
    by (simp add: registerUser_def validateTableName_def p e h databaseAddUser_def)
       (simp add: demo_db_def)
  have m: "emails (demo_db @ [(''id3'', new_item ''eve'' ''b@x.com'' (Some ''$2a$10$pw2'') None)]) =
     [''a@x.com'', ''b@x.com'', ''b@x.com'']"
    by (simp add: demo_db_def e)
  have d: "distinct (emails demo_db)"
    by (simp add: demo_db_def e)
  from v f d c m show ?thesis by simp
qed

subsection \<open>Password reset\<close>

lemma find_page_key:
  "find_by_email (Scan L t) email = Some (uid, a) \<Longrightarrow> uid \<in> set (map fst t)"
  using find_by_email_mem [of "Scan L t" email uid a] set_Scan [of L t] by force

lemma find_page_map_of:
  "distinct (map fst t) \<Longrightarrow> find_by_email (Scan L t) email = Some (uid, a) \<Longrightarrow>
   map_of t uid = Some a"
  using find_by_email_mem [of "Scan L t" email uid a] set_Scan [of L t] by auto

lemma set_attrs_reset:
  "set_attrs [(''resetToken'', []), (''tokenExpiry'', [])] =
     (\<lambda>a. a(''resetToken'' \<mapsto> [], ''tokenExpiry'' \<mapsto> []))"
  by (intro ext) (simp add: set_attrs_def map_add_def)

lemma set_attrs_password:
  "set_attrs [(''resetToken'', []), (''tokenExpiry'', []), (''password_hash'', h)] =
     (\<lambda>a. a(''resetToken'' \<mapsto> [], ''tokenExpiry'' \<mapsto> [], ''password_hash'' \<mapsto> h))"
  by (intro ext) (simp add: set_attrs_def map_add_def)

lemma reset_scan_pass:
  "find_by_email items email = Some (uid, a) \<Longrightarrow> \<not> truthy (a ''provider'') \<Longrightarrow>
   a ''password_hash'' = Some h \<Longrightarrow> \<not> bcrypt_compare L newPassword h \<Longrightarrow>
   a ''resetToken'' = Some rt \<Longrightarrow> rt \<noteq> [] \<Longrightarrow> a ''tokenExpiry'' = Some ex \<Longrightarrow> ex \<noteq> [] \<Longrightarrow>
   \<not> expired L now ex \<Longrightarrow> bcrypt_compare L token rt \<Longrightarrow>
   reset_scan L items t email token newPassword now = (Inr uid, t)"
  by (induction items) (auto simp: compare_def interp_def split: if_splits)

lemma reset_scan_mismatch:
  "find_by_email items email = Some (uid, a) \<Longrightarrow> \<not> truthy (a ''provider'') \<Longrightarrow>
   a ''password_hash'' = Some h \<Longrightarrow> \<not> bcrypt_compare L newPassword h \<Longrightarrow>
   a ''resetToken'' = Some rt \<Longrightarrow> rt \<noteq> [] \<Longrightarrow> a ''tokenExpiry'' = Some ex \<Longrightarrow> ex \<noteq> [] \<Longrightarrow>
   \<not> expired L now ex \<Longrightarrow> \<not> bcrypt_compare L token rt \<Longrightarrow>
   reset_scan L items t email token newPassword now = (Inl (ErrorWithStatus ''Invalid Token'' 400), t)"
  by (induction items) (auto simp: compare_def interp_def split: if_splits)

lemma reset_scan_expired:
  "find_by_email items email = Some (uid, a) \<Longrightarrow> \<not> truthy (a ''provider'') \<Longrightarrow>
   a ''password_hash'' = Some h \<Longrightarrow> \<not> bcrypt_compare L newPassword h \<Longrightarrow>
   a ''resetToken'' = Some rt \<Longrightarrow> rt \<noteq> [] \<Longrightarrow> a ''tokenExpiry'' = Some ex \<Longrightarrow> ex \<noteq> [] \<Longrightarrow>
   expired L now ex \<Longrightarrow>
   reset_scan L items t email token newPassword now =
     (case databaseEditUser uid [(''resetToken'', []), (''tokenExpiry'', [])] t of
        (Inl e, t') \<Rightarrow> (Inl e, t')
      | (Inr u, t') \<Rightarrow> (Inl (ErrorWithStatus ''Invalid Token'' 400), t'))"
  by (induction items) (auto simp: compare_def interp_def split: if_splits)

lemma reset_scan_no_pending:
  "find_by_email items email = Some (uid, a) \<Longrightarrow> \<not> truthy (a ''provider'') \<Longrightarrow>
   a ''password_hash'' = Some h \<Longrightarrow>
   \<not> truthy (a ''resetToken'') \<or> \<not> truthy (a ''tokenExpiry'') \<Longrightarrow>
   \<exists>m. reset_scan L items t email token newPassword now = (Inl (ErrorWithStatus m 400), t)"
  by (induction items) (auto simp: compare_def truthy_def split: if_splits option.splits)

lemma demo_pending_facts:
  "validate demo_lib ''a@x.com''"
  "distinct (map fst demo_pending)"
  "find_by_email (Scan demo_lib demo_pending) ''a@x.com'' = Some (''id1'', demo_alice)"
  "\<not> truthy (demo_alice ''provider'')"
  "demo_alice ''password_hash'' = Some ''$2a$10$pw1''"
  "\<not> bcrypt_compare demo_lib ''pw2'' ''$2a$10$pw1''"
  "demo_alice ''resetToken'' = Some ''$2a$10$tok1''"
  "demo_alice ''tokenExpiry'' = Some ''1970-01-01T01:00:00.000Z''"
  "\<not> expired demo_lib 1000 ''1970-01-01T01:00:00.000Z''"
  "expired demo_lib 3600000 ''1970-01-01T01:00:00.000Z''"
  "bcrypt_compare demo_lib ''tok1'' ''$2a$10$tok1''"
  "\<not> bcrypt_compare demo_lib ''bad'' ''$2a$10$tok1''"
  "expired demo_lib 7200000 ''1970-01-01T01:00:00.000Z''"
  by (simp_all add: demo_lib_def demo_pending_def demo_alice_def new_item_def truthy_def
      expired_def Scan_def)

text \<open>
  Claim C8. Let the first item with the email on the scanned page be a password account
  with a pending reset that is not expired, let the token verify and the new password not
  verify against the stored hash: every check of the call passes. Then \<open>resetPassword\<close> writes the new \<^verbatim>\<open>password_hash\<close> and the two
  emptied reset fields to that item in one update and sends the mail afterwards: when
  the mail fails the call fails with status 500, and the table it leaves is the updated
  one all the same.
\<close>

theorem resetPassword_notification_coupling:
  assumes "validate L email" and "distinct (map fst t)"
    and "find_by_email (Scan L t) email = Some (uid, a)" and "uid \<noteq> []"
    and "\<not> truthy (a ''provider'')"
    and "a ''password_hash'' = Some h" and "\<not> bcrypt_compare L newPassword h"
    and "a ''resetToken'' = Some rt" and "rt \<noteq> []"
    and "a ''tokenExpiry'' = Some ex" and "ex \<noteq> []"
    and "\<not> expired L now ex" and "bcrypt_compare L token rt"
  shows "\<exists>t'. resetPassword L TABLE_NAME email token newPassword salt now sent t =
           (if sent then Inr () else Inl (ErrorWithStatus ''Email failed to send'' 500), t') \<and>
         map_of t' uid =
           Some (a(''resetToken'' \<mapsto> [], ''tokenExpiry'' \<mapsto> [],
                   ''password_hash'' \<mapsto> bcrypt_hash L newPassword salt)) \<and>
         (\<forall>k. k \<noteq> uid \<longrightarrow> map_of t' k = map_of t k)"
proof -
  let ?f = "\<lambda>b. b(''resetToken'' \<mapsto> [], ''tokenExpiry'' \<mapsto> [],
                   ''password_hash'' \<mapsto> bcrypt_hash L newPassword salt)"
  have scan: "reset_scan L (Scan L t) t email token newPassword now = (Inr uid, t)"
    using assms by (auto intro: reset_scan_pass)
  have key: "uid \<in> set (map fst t)"
    using assms(3) by (rule find_page_key)
  have m: "map_of t uid = Some a"
    using assms(2,3) by (rule find_page_map_of)
  have res: "resetPassword L TABLE_NAME email token newPassword salt now sent t =
           (if sent then Inr () else Inl (ErrorWithStatus ''Email failed to send'' 500),
            AList.map_entry uid ?f t)"
    using assms(1,4) scan key
    by (simp add: resetPassword_def validateTableName_def databaseEditUser_def
        set_attrs_password sendPasswordResetEmail_def)
  have "map_of (AList.map_entry uid ?f t) uid = Some (?f a)"
    using m by (simp add: map_of_map_entry)
  moreover have "\<forall>k. k \<noteq> uid \<longrightarrow> map_of (AList.map_entry uid ?f t) k = map_of t k"
    by (simp add: map_of_map_entry)
  ultimately show ?thesis using res by blast
qed

theorem resetPassword_notification_coupling_witness:
  "\<not> expired demo_lib 1000 ''1970-01-01T01:00:00.000Z'' \<and>
   bcrypt_compare demo_lib ''tok1'' ''$2a$10$tok1'' \<and>
   (\<exists>t'. resetPassword demo_lib TABLE_NAME ''a@x.com'' ''tok1'' ''pw2'' ''s1'' 1000 False demo_pending =
           (Inl (ErrorWithStatus ''Email failed to send'' 500), t') \<and>
         map_of t' ''id1'' =
           Some (demo_alice(''resetToken'' \<mapsto> [], ''tokenExpiry'' \<mapsto> [],
                   ''password_hash'' \<mapsto> bcrypt_hash demo_lib ''pw2'' ''s1'')))"
proof -
  have ne: "''id1'' \<noteq> []" "''$2a$10$tok1'' \<noteq> []" "''1970-01-01T01:00:00.000Z'' \<noteq> []"
    by simp_all
  note th = resetPassword_notification_coupling
    [OF demo_pending_facts(1) demo_pending_facts(2) demo_pending_facts(3) ne(1)
        demo_pending_facts(4) demo_pending_facts(5) demo_pending_facts(6)
        demo_pending_facts(7) ne(2) demo_pending_facts(8) ne(3)
        demo_pending_facts(9) demo_pending_facts(11), of "''s1''" False]
  from th demo_pending_facts(9) demo_pending_facts(11) show ?thesis
    by auto
qed

text \<open>
  Claim C4. Let the first item with the email on the scanned page be a password account
  with a pending reset (both reset fields not empty) whose hash the new password does not
  verify against. If
  the clock has reached the expiry, \<open>resetPassword\<close> sets both reset fields of the item to
  the empty string, changes nothing else and fails with status 400 and
  \<^verbatim>\<open>Invalid Token\<close>. If the reset is not expired and the token does not verify against
  the stored token hash, it fails with the same error and the table is as it was.
\<close>

theorem resetPassword_token_checks:
  assumes "validate L email" and "distinct (map fst t)"
    and "find_by_email (Scan L t) email = Some (uid, a)"
    and "\<not> truthy (a ''provider'')"
    and "a ''password_hash'' = Some h" and "\<not> bcrypt_compare L newPassword h"
    and "a ''resetToken'' = Some rt" and "rt \<noteq> []"
    and "a ''tokenExpiry'' = Some ex" and "ex \<noteq> []"
  shows "(expired L now ex \<longrightarrow>
           (\<exists>t'. resetPassword L TABLE_NAME email token newPassword salt now sent t =
                   (Inl (ErrorWithStatus ''Invalid Token'' 400), t') \<and>
                 map_of t' uid = Some (a(''resetToken'' \<mapsto> [], ''tokenExpiry'' \<mapsto> [])) \<and>
                 (\<forall>k. k \<noteq> uid \<longrightarrow> map_of t' k = map_of t k))) \<and>
         (\<not> expired L now ex \<and> \<not> bcrypt_compare L token rt \<longrightarrow>
           resetPassword L TABLE_NAME email token newPassword salt now sent t =
             (Inl (ErrorWithStatus ''Invalid Token'' 400), t))"
proof (intro conjI impI)
  assume e: "expired L now ex"
  let ?f = "\<lambda>b. b(''resetToken'' \<mapsto> [], ''tokenExpiry'' \<mapsto> [])"
  have key: "uid \<in> set (map fst t)"
    using assms(3) by (rule find_page_key)
  have m: "map_of t uid = Some a"
    using assms(2,3) by (rule find_page_map_of)
  have "reset_scan L (Scan L t) t email token newPassword now =
     (case databaseEditUser uid [(''resetToken'', []), (''tokenExpiry'', [])] t of
        (Inl e, t') \<Rightarrow> (Inl e, t')
      | (Inr u, t') \<Rightarrow> (Inl (ErrorWithStatus ''Invalid Token'' 400), t'))"
    using assms e by (auto intro: reset_scan_expired)
  then have scan: "reset_scan L (Scan L t) t email token newPassword now =
     (Inl (ErrorWithStatus ''Invalid Token'' 400), AList.map_entry uid ?f t)"
    using key by (simp add: databaseEditUser_def set_attrs_reset)
  have res: "resetPassword L TABLE_NAME email token newPassword salt now sent t =
     (Inl (ErrorWithStatus ''Invalid Token'' 400), AList.map_entry uid ?f t)"
    using assms(1) scan by (simp add: resetPassword_def validateTableName_def)
  have "map_of (AList.map_entry uid ?f t) uid = Some (?f a)"
    using m by (simp add: map_of_map_entry)
  moreover have "\<forall>k. k \<noteq> uid \<longrightarrow> map_of (AList.map_entry uid ?f t) k = map_of t k"
    by (simp add: map_of_map_entry)
  ultimately show "\<exists>t'. resetPassword L TABLE_NAME email token newPassword salt now sent t =
                   (Inl (ErrorWithStatus ''Invalid Token'' 400), t') \<and>
                 map_of t' uid = Some (a(''resetToken'' \<mapsto> [], ''tokenExpiry'' \<mapsto> [])) \<and>
                 (\<forall>k. k \<noteq> uid \<longrightarrow> map_of t' k = map_of t k)"
    using res by blast
next
  assume ne: "\<not> expired L now ex \<and> \<not> bcrypt_compare L token rt"
  have scan: "reset_scan L (Scan L t) t email token newPassword now =
     (Inl (ErrorWithStatus ''Invalid Token'' 400), t)"
    using assms ne by (auto intro: reset_scan_mismatch)
  show "resetPassword L TABLE_NAME email token newPassword salt now sent t =
             (Inl (ErrorWithStatus ''Invalid Token'' 400), t)"
    using assms(1) scan by (simp add: resetPassword_def validateTableName_def)
qed

theorem resetPassword_token_checks_witness:
  "expired demo_lib 3600000 ''1970-01-01T01:00:00.000Z'' \<and>
   (\<exists>t'. resetPassword demo_lib TABLE_NAME ''a@x.com'' ''tok1'' ''pw2'' ''s1'' 3600000 True demo_pending =
           (Inl (ErrorWithStatus ''Invalid Token'' 400), t') \<and>
         map_of t' ''id1'' = Some (demo_alice(''resetToken'' \<mapsto> [], ''tokenExpiry'' \<mapsto> []))) \<and>
   expired demo_lib 7200000 ''1970-01-01T01:00:00.000Z'' \<and>
   (\<exists>t'. resetPassword demo_lib TABLE_NAME ''a@x.com'' ''tok1'' ''pw2'' ''s1'' 7200000 True demo_pending =
           (Inl (ErrorWithStatus ''Invalid Token'' 400), t') \<and>
         map_of t' ''id1'' = Some (demo_alice(''resetToken'' \<mapsto> [], ''tokenExpiry'' \<mapsto> []))) \<and>
   \<not> expired demo_lib 1000 ''1970-01-01T01:00:00.000Z'' \<and>
   \<not> bcrypt_compare demo_lib ''bad'' ''$2a$10$tok1'' \<and>
   resetPassword demo_lib TABLE_NAME ''a@x.com'' ''bad'' ''pw2'' ''s1'' 1000 True demo_pending =
     (Inl (ErrorWithStatus ''Invalid Token'' 400), demo_pending)"
proof -
  have ne: "''$2a$10$tok1'' \<noteq> []" "''1970-01-01T01:00:00.000Z'' \<noteq> []"
    by simp_all
  note th = resetPassword_token_checks
    [OF demo_pending_facts(1) demo_pending_facts(2) demo_pending_facts(3)
        demo_pending_facts(4) demo_pending_facts(5) demo_pending_facts(6)
        demo_pending_facts(7) ne(1) demo_pending_facts(8) ne(2)]
  from th [of 3600000 "''tok1''" "''s1''" True] demo_pending_facts(10)
  have c1: "\<exists>t'. resetPassword demo_lib TABLE_NAME ''a@x.com'' ''tok1'' ''pw2'' ''s1'' 3600000 True
                   demo_pending = (Inl (ErrorWithStatus ''Invalid Token'' 400), t') \<and>
         map_of t' ''id1'' = Some (demo_alice(''resetToken'' \<mapsto> [], ''tokenExpiry'' \<mapsto> []))"
    by auto
  from th [of 1000 "''bad''" "''s1''" True] demo_pending_facts(9) demo_pending_facts(12)
  have c2: "resetPassword demo_lib TABLE_NAME ''a@x.com'' ''bad'' ''pw2'' ''s1'' 1000 True demo_pending =
     (Inl (ErrorWithStatus ''Invalid Token'' 400), demo_pending)"
    by blast
  from th [of 7200000 "''tok1''" "''s1''" True] demo_pending_facts(13)
  have c3: "\<exists>t'. resetPassword demo_lib TABLE_NAME ''a@x.com'' ''tok1'' ''pw2'' ''s1'' 7200000 True
                   demo_pending = (Inl (ErrorWithStatus ''Invalid Token'' 400), t') \<and>
         map_of t' ''id1'' = Some (demo_alice(''resetToken'' \<mapsto> [], ''tokenExpiry'' \<mapsto> []))"
    by auto
  from c1 c2 c3 demo_pending_facts(9) demo_pending_facts(10) demo_pending_facts(12)
    demo_pending_facts(13)
  show ?thesis
    by blast
qed

subsection \<open>Casing of field names\<close>

lemma split_comma_no_comma: "CHR '','' \<notin> set s \<Longrightarrow> split_comma s = [s]"
  by (induction s) auto

lemma dropWhile_none: "\<forall>c\<in>set s. \<not> P c \<Longrightarrow> dropWhile P s = s"
  by (cases s) auto

lemma trim_no_space: "\<forall>c\<in>set s. \<not> is_space c \<Longrightarrow> trim s = s"
  by (simp add: trim_def dropWhile_none)

lemma letters_plain: "c \<in> set ''usernameprovidl'' \<Longrightarrow> c \<noteq> CHR '','' \<and> \<not> is_space c"
  by (auto simp: is_space_def)

lemma upper_plain: "65 \<le> (of_char c :: nat) \<Longrightarrow> c \<noteq> CHR '','' \<and> \<not> is_space c"
  by (auto simp: is_space_def)

lemma lower_char_cases: "lower_char c = c \<or> 65 \<le> (of_char c :: nat)"
  by (simp add: lower_char_def Let_def)

lemma lower_char_letter:
  "lower_char c \<in> set ''usernameprovidl'' \<Longrightarrow> c \<noteq> CHR '','' \<and> \<not> is_space c"
  using lower_char_cases [of c] letters_plain [of c] upper_plain [of c] by metis

lemma retrievable_letters:
  assumes "s \<in> set RETRIEVABLE_USER_FIELDS"
  shows "set s \<subseteq> set ''usernameprovidl''"
proof -
  from assms have "s = ''username'' \<or> s = ''provider'' \<or> s = ''email''"
    by (simp add: RETRIEVABLE_USER_FIELDS_def ADDITIONAL_USER_FIELDS_def) blast
  then show ?thesis
    by (elim disjE) simp_all
qed

lemma retrievable_plain:
  assumes "toLowerCase f \<in> set RETRIEVABLE_USER_FIELDS"
  shows "\<forall>c\<in>set f. c \<noteq> CHR '','' \<and> \<not> is_space c"
proof
  fix c assume c: "c \<in> set f"
  then have "lower_char c \<in> set (toLowerCase f)"
    by (simp add: toLowerCase_def)
  with retrievable_letters [OF assms] have "lower_char c \<in> set ''usernameprovidl''"
    by blast
  then show "c \<noteq> CHR '','' \<and> \<not> is_space c" by (rule lower_char_letter)
qed

lemma fields_of_retrievable:
  "toLowerCase f \<in> set RETRIEVABLE_USER_FIELDS \<Longrightarrow> map trim (split_comma f) = [f]"
proof -
  assume "toLowerCase f \<in> set RETRIEVABLE_USER_FIELDS"
  then have p: "\<forall>c\<in>set f. c \<noteq> CHR '','' \<and> \<not> is_space c"
    by (rule retrievable_plain)
  then have "CHR '','' \<notin> set f" by blast
  then have "split_comma f = [f]" by (rule split_comma_no_comma)
  moreover from p have "trim f = f" by (simp add: trim_no_space)
  ultimately show ?thesis by simp
qed

lemma map_of_key: "map_of t k = Some a \<Longrightarrow> k \<in> set (map fst t)"
  by (auto dest: map_of_SomeD intro: rev_image_eqI)

text \<open>
  Claim C10. Let \<open>f\<close> be a field name whose lowercase form is in
  \<open>ADDITIONAL_USER_FIELDS\<close> but which is not itself in lowercase, and let the user id have
  an item with attributes \<open>a\<close>. Then \<open>setUserInfo\<close> with the one field \<open>f\<close> succeeds and
  stores the value under \<open>f\<close> as it was spelled, leaving the attribute under the lowercase
  name as it was; and \<open>getUserInfo\<close> for \<open>f\<close> passes validation and reads the attribute
  \<open>f\<close> as spelled: it fails with status 400 (uninitialised) when the item has no such
  attribute, whatever it holds under the lowercase name.
\<close>

theorem validation_ignores_case_access_does_not:
  assumes "toLowerCase f \<in> set ADDITIONAL_USER_FIELDS" and "f \<noteq> toLowerCase f"
    and "map_of t user_id = Some a"
  shows "(\<exists>t'. setUserInfo TABLE_NAME user_id [(f, v)] t = (Inr (), t') \<and>
              map_of t' user_id = Some (a(f \<mapsto> v)) \<and>
              (a(f \<mapsto> v)) (toLowerCase f) = a (toLowerCase f)) \<and>
         getUserInfo TABLE_NAME user_id f t =
           (case a f of
              None \<Rightarrow> Inl (ErrorWithStatus (''Uninitialised value/s: '' @ [CHR 0x27] @ f @ [CHR 0x27]) 400)
            | Some x \<Rightarrow> Inr [f \<mapsto> x])"
proof (intro conjI)
  have key: "user_id \<in> set (map fst t)"
    using assms(3) by (rule map_of_key)
  have "set_attrs [(f, v)] = (\<lambda>b. b(f \<mapsto> v))"
    by (intro ext) (simp add: set_attrs_def map_add_def)
  then have "setUserInfo TABLE_NAME user_id [(f, v)] t =
        (Inr (), AList.map_entry user_id (\<lambda>b. b(f \<mapsto> v)) t)"
    using assms(1) key
    by (simp add: setUserInfo_def validateTableName_def databaseEditUser_def)
  moreover have "map_of (AList.map_entry user_id (\<lambda>b. b(f \<mapsto> v)) t) user_id = Some (a(f \<mapsto> v))"
    using assms(3) by (simp add: map_of_map_entry)
  moreover have "(a(f \<mapsto> v)) (toLowerCase f) = a (toLowerCase f)"
    using assms(2) by simp
  ultimately show "\<exists>t'. setUserInfo TABLE_NAME user_id [(f, v)] t = (Inr (), t') \<and>
              map_of t' user_id = Some (a(f \<mapsto> v)) \<and>
              (a(f \<mapsto> v)) (toLowerCase f) = a (toLowerCase f)"
    by blast
next
  have r: "toLowerCase f \<in> set RETRIEVABLE_USER_FIELDS"
    using assms(1) by (simp add: RETRIEVABLE_USER_FIELDS_def)
  have p: "\<And>x. a f = Some x \<Longrightarrow> a |` {f} = [f \<mapsto> x]"
    by (rule ext) (simp add: restrict_map_def)
  show "getUserInfo TABLE_NAME user_id f t =
           (case a f of
              None \<Rightarrow> Inl (ErrorWithStatus (''Uninitialised value/s: '' @ [CHR 0x27] @ f @ [CHR 0x27]) 400)
            | Some x \<Rightarrow> Inr [f \<mapsto> x])"
    using r assms(3) p
    by (simp add: getUserInfo_def validateTableName_def fields_of_retrievable
        split: option.splits)
qed

theorem validation_ignores_case_access_does_not_witness:
  "toLowerCase ''Username'' \<in> set ADDITIONAL_USER_FIELDS \<and>
   ''Username'' \<noteq> toLowerCase ''Username'' \<and>
   map_option (\<lambda>a. (a ''username'', a ''Username'')) (map_of demo_db ''id1'') =
     Some (Some ''alice'', None) \<and>
   (\<exists>t'. setUserInfo TABLE_NAME ''id1'' [(''Username'', ''al'')] demo_db = (Inr (), t') \<and>
         map_option (\<lambda>a. (a ''username'', a ''Username'')) (map_of t' ''id1'') =
           Some (Some ''alice'', Some ''al'')) \<and>
   getUserInfo TABLE_NAME ''id1'' ''Username'' demo_db =
     Inl (ErrorWithStatus (''Uninitialised value/s: '' @ [CHR 0x27] @ ''Username'' @ [CHR 0x27]) 400)"
proof -
  let ?a = "new_item ''alice'' ''a@x.com'' (Some ''$2a$10$pw1'') None"
  have l: "toLowerCase ''Username'' = ''username''"
    by code_simp
  have h1: "toLowerCase ''Username'' \<in> set ADDITIONAL_USER_FIELDS"
    by (simp add: l ADDITIONAL_USER_FIELDS_def)
  have h2: "''Username'' \<noteq> toLowerCase ''Username''"
    by (simp add: l)
  have h3: "map_of demo_db ''id1'' = Some ?a"
    by (simp add: demo_db_def)
  have a: "?a ''username'' = Some ''alice''" "?a ''Username'' = None"
    by (simp_all add: new_item_def)
  note th = validation_ignores_case_access_does_not [OF h1 h2 h3, of "''al''"]
  from th a l have c1: "\<exists>t'. setUserInfo TABLE_NAME ''id1'' [(''Username'', ''al'')] demo_db = (Inr (), t') \<and>
         map_option (\<lambda>a. (a ''username'', a ''Username'')) (map_of t' ''id1'') =
           Some (Some ''alice'', Some ''al'')"
    by auto
  from th a have c2: "getUserInfo TABLE_NAME ''id1'' ''Username'' demo_db =
     Inl (ErrorWithStatus (''Uninitialised value/s: '' @ [CHR 0x27] @ ''Username'' @ [CHR 0x27]) 400)"
    by simp
  from h1 h2 h3 a c1 c2 show ?thesis by simp
qed

subsection \<open>Reset round trip\<close>

lemma token_scan_find:
  "find_by_email t email = Some (uid, a) \<Longrightarrow> \<not> truthy (a ''provider'') \<Longrightarrow>
   token_scan t email = Inr uid"
  by (induction t) (auto split: if_splits)

lemma reset_scan_none:
  "find_by_email items email = None \<Longrightarrow>
   reset_scan L items t email token newPassword now = (Inr [], t)"
  by (induction items) (auto split: if_splits)

lemma unique_email_map_entry:
  "(\<And>b. g b ''email'' = b ''email'') \<Longrightarrow>
   \<forall>(k, b)\<in>set t. b ''email'' = Some email \<longrightarrow> k = uid \<Longrightarrow>
   \<forall>(k, b)\<in>set (AList.map_entry uid' g t). b ''email'' = Some email \<longrightarrow> k = uid"
  by (induction t) auto

lemma only_item_with_email:
  assumes "distinct (map fst t)" and "map_of t uid = Some a"
    and "\<forall>(k, b)\<in>set t. b ''email'' = Some email \<longrightarrow> k = uid"
    and "(k, b) \<in> set t" and "b ''email'' = Some email"
  shows "b = a"
proof -
  from assms(3,4,5) have "k = uid" by blast
  with assms(1,4) have "map_of t uid = Some b" by simp
  with assms(2) show ?thesis by simp
qed

lemma find_in_items:
  assumes "distinct (map fst t)" and "map_of t uid = Some a" and "a ''email'' = Some email"
    and "\<forall>(k, b)\<in>set t. b ''email'' = Some email \<longrightarrow> k = uid"
  shows "set items \<subseteq> set t \<Longrightarrow> uid \<in> set (map fst items) \<Longrightarrow>
         find_by_email items email = Some (uid, a)"
proof (induction items)
  case Nil
  then show ?case by simp
next
  case (Cons p items)
  obtain k b where p: "p = (k, b)" by (cases p)
  with Cons.prems(1) have kb: "(k, b) \<in> set t" by simp
  show ?case
  proof (cases "b ''email'' = Some email")
    case True
    with assms(1,2,4) kb have "b = a" by (rule only_item_with_email)
    moreover from assms(4) kb True have "k = uid" by blast
    ultimately show ?thesis using p True by simp
  next
    case False
    have "k \<noteq> uid"
    proof
      assume "k = uid"
      with assms(1) kb have "map_of t uid = Some b" by simp
      with assms(2,3) False show False by simp
    qed
    with Cons.prems p have "set items \<subseteq> set t" "uid \<in> set (map fst items)" by auto
    with Cons.IH p False show ?thesis by simp
  qed
qed

lemma find_on_page:
  assumes "distinct (map fst t)" and "map_of t uid = Some a" and "a ''email'' = Some email"
    and "\<forall>(k, b)\<in>set t. b ''email'' = Some email \<longrightarrow> k = uid"
    and "uid \<in> set (map fst (Scan L t))"
  shows "find_by_email (Scan L t) email = Some (uid, a)"
  using assms(1-4) set_Scan assms(5) by (rule find_in_items)

lemma resetPassword_pass:
  assumes "validate L email" and "find_by_email (Scan L t) email = Some (uid, a)"
    and "uid \<noteq> []" and "\<not> truthy (a ''provider'')"
    and "a ''password_hash'' = Some h" and "\<not> bcrypt_compare L newPassword h"
    and "a ''resetToken'' = Some rt" and "rt \<noteq> []"
    and "a ''tokenExpiry'' = Some ex" and "ex \<noteq> []"
    and "\<not> expired L now ex" and "bcrypt_compare L token rt"
  shows "resetPassword L TABLE_NAME email token newPassword salt now sent t =
           (if sent then Inr () else Inl (ErrorWithStatus ''Email failed to send'' 500),
            AList.map_entry uid
              (\<lambda>b. b(''resetToken'' \<mapsto> [], ''tokenExpiry'' \<mapsto> [],
                      ''password_hash'' \<mapsto> bcrypt_hash L newPassword salt)) t)"
proof -
  have scan: "reset_scan L (Scan L t) t email token newPassword now = (Inr uid, t)"
    using assms by (auto intro: reset_scan_pass)
  have key: "uid \<in> set (map fst t)"
    using assms(2) by (rule find_page_key)
  show ?thesis
    using assms(1,3) scan key
    by (simp add: resetPassword_def validateTableName_def databaseEditUser_def
        set_attrs_password sendPasswordResetEmail_def)
qed

lemma resetPassword_cleared:
  assumes "validate L email" and "distinct (map fst t)" and "map_of t uid = Some a"
    and "\<forall>(k, b)\<in>set t. b ''email'' = Some email \<longrightarrow> k = uid"
    and "\<not> truthy (a ''provider'')" and "a ''password_hash'' = Some h"
    and "\<not> truthy (a ''resetToken'') \<or> \<not> truthy (a ''tokenExpiry'')"
  shows "\<exists>m. resetPassword L TABLE_NAME email token newPassword salt now sent t =
           (Inl (ErrorWithStatus m 400), t)"
proof (cases "find_by_email (Scan L t) email")
  case None
  then have "reset_scan L (Scan L t) t email token newPassword now = (Inr [], t)"
    by (rule reset_scan_none)
  with assms(1) show ?thesis
    by (simp add: resetPassword_def validateTableName_def)
next
  case (Some p)
  obtain k b where p: "p = (k, b)" by (cases p)
  with Some have f: "find_by_email (Scan L t) email = Some (k, b)" by simp
  then have "(k, b) \<in> set (Scan L t)" and e: "b ''email'' = Some email"
    using find_by_email_mem by blast+
  with set_Scan have kb: "(k, b) \<in> set t" by blast
  with assms(2,3,4) have "b = a" using e by (rule only_item_with_email)
  with f assms(5,6,7) obtain m where
    "reset_scan L (Scan L t) t email token newPassword now = (Inl (ErrorWithStatus m 400), t)"
    using reset_scan_no_pending by blast
  with assms(1) show ?thesis
    by (simp add: resetPassword_def validateTableName_def)
qed

lemma sendPasswordResetToken_ok:
  assumes "validate L email" and "find_by_email (Scan L t) email = Some (uid, a)"
    and "uid \<noteq> []" and "\<not> truthy (a ''provider'')"
  shows "sendPasswordResetToken L TABLE_NAME email token salt now sent t =
           (if sent then Inr token else Inl (ErrorWithStatus ''Email failed to send'' 500),
            AList.map_entry uid
              (\<lambda>b. b(''resetToken'' \<mapsto> bcrypt_hash L token salt,
                      ''tokenExpiry'' \<mapsto> toISOString L (nextHour L now))) t)"
proof -
  have scan: "token_scan (Scan L t) email = Inr uid"
    using assms(2,4) by (rule token_scan_find)
  have key: "uid \<in> set (map fst t)"
    using assms(2) by (rule find_page_key)
  have s: "set_attrs [(''resetToken'', bcrypt_hash L token salt),
                      (''tokenExpiry'', toISOString L (nextHour L now))] =
           (\<lambda>b. b(''resetToken'' \<mapsto> bcrypt_hash L token salt,
                   ''tokenExpiry'' \<mapsto> toISOString L (nextHour L now)))"
    by (intro ext) (simp add: set_attrs_def map_add_def)
  show ?thesis
    using assms(1,3) scan key
    by (simp add: sendPasswordResetToken_def validateTableName_def databaseEditUser_def
        s sendTokenEmail_def Let_def)
qed

text \<open>
  Claim C5, as the code has it. Take a password account that the scans reach: it is on
  the first page when the token is issued and still there when the token is stored. Its
  email is valid and held by no other item. Let the token verify against its own digest,
  let the new password not verify against the stored hash (that is how \<open>resetPassword\<close>
  tells a new password from the current one), and let the old password not verify against
  the hash of the new one. Then \<open>sendPasswordResetToken\<close> at time \<open>now\<close> followed by
  \<open>resetPassword\<close> with the returned token before the expiry, both mails sent, succeeds
  twice; afterwards the item holds the hash of the new password and two empty reset
  fields, \<open>authenticateUser\<close> with the old password fails with status 401, and any further
  \<open>resetPassword\<close> with the token fails with status 400 and changes nothing.
\<close>

theorem reset_round_trip:
  assumes v: "validate L email"
    and d: "distinct (map fst t)"
    and f: "find_by_email (Scan L t) email = Some (uid, a)"
    and u: "uid \<noteq> []"
    and uniq: "\<forall>(k, b)\<in>set t. b ''email'' = Some email \<longrightarrow> k = uid"
    and pa: "\<not> truthy (a ''provider'')"
    and ph: "a ''password_hash'' = Some h"
    and np: "\<not> bcrypt_compare L newPassword h"
    and op: "\<not> bcrypt_compare L oldPassword (bcrypt_hash L newPassword salt2)"
    and tk: "bcrypt_compare L token (bcrypt_hash L token salt1)"
    and tk_ne: "bcrypt_hash L token salt1 \<noteq> []"
    and iso: "parseDate L (toISOString L (nextHour L now)) = Some (nextHour L now)"
    and iso_ne: "toISOString L (nextHour L now) \<noteq> []"
    and imm: "now' < nextHour L now"
    and s1: "sendPasswordResetToken L TABLE_NAME email token salt1 now True t = (r1, t1)"
    and p1: "uid \<in> set (map fst (Scan L t1))"
    and s2: "resetPassword L TABLE_NAME email token newPassword salt2 now' True t1 = (r2, t2)"
  shows "r1 = Inr token \<and> r2 = Inr () \<and>
         map_of t2 uid =
           Some (a(''resetToken'' \<mapsto> [], ''tokenExpiry'' \<mapsto> [],
                   ''password_hash'' \<mapsto> bcrypt_hash L newPassword salt2)) \<and>
         authenticateUser L TABLE_NAME email oldPassword t2 =
           Inl (ErrorWithStatus ''Authentication Error (Incorrect email or password)'' 401) \<and>
         (\<exists>m. resetPassword L TABLE_NAME email token newPassword' salt3 now'' sent t2 =
                (Inl (ErrorWithStatus m 400), t2))"
proof -
  let ?ht = "bcrypt_hash L token salt1"
  let ?ex = "toISOString L (nextHour L now)"
  let ?hn = "bcrypt_hash L newPassword salt2"
  let ?g1 = "\<lambda>b::attrs. b(''resetToken'' \<mapsto> ?ht, ''tokenExpiry'' \<mapsto> ?ex)"
  let ?g2 = "\<lambda>b::attrs. b(''resetToken'' \<mapsto> [], ''tokenExpiry'' \<mapsto> [], ''password_hash'' \<mapsto> ?hn)"
  let ?a2 = "?g2 (?g1 a)"
  have m: "map_of t uid = Some a"
    using d f by (rule find_page_map_of)
  have e: "a ''email'' = Some email"
    using f find_by_email_mem by blast
  have "sendPasswordResetToken L TABLE_NAME email token salt1 now True t =
          (Inr token, AList.map_entry uid ?g1 t)"
    using sendPasswordResetToken_ok [OF v f u pa, of token salt1 now True] by simp
  with s1 have r1: "r1 = Inr token" and t1: "t1 = AList.map_entry uid ?g1 t" by simp_all
  have d1: "distinct (map fst t1)"
    unfolding t1 using d by (rule distinct_map_entry)
  have m1: "map_of t1 uid = Some (?g1 a)"
    unfolding t1 using m by (simp add: map_of_map_entry)
  have u1: "\<forall>(k, b)\<in>set t1. b ''email'' = Some email \<longrightarrow> k = uid"
    unfolding t1 by (rule unique_email_map_entry [where t = t, OF _ uniq]) simp
  have f1: "find_by_email (Scan L t1) email = Some (uid, ?g1 a)"
    using d1 m1 _ u1 p1 by (rule find_on_page) (simp add: e)
  have ne: "\<not> expired L now' ?ex"
    using iso imm by (simp add: expired_def)
  have "resetPassword L TABLE_NAME email token newPassword salt2 now' True t1 =
          (Inr (), AList.map_entry uid ?g2 t1)"
    using resetPassword_pass [OF v f1 u, of h newPassword ?ht ?ex now' token salt2 True]
      pa ph np tk tk_ne iso_ne ne by simp
  with s2 have r2: "r2 = Inr ()" and t2: "t2 = AList.map_entry uid ?g2 t1" by simp_all
  have d2: "distinct (map fst t2)"
    unfolding t2 using d1 by (rule distinct_map_entry)
  have m2: "map_of t2 uid = Some ?a2"
    unfolding t2 using m1 by (simp add: map_of_map_entry)
  have a2: "?a2 = a(''resetToken'' \<mapsto> [], ''tokenExpiry'' \<mapsto> [], ''password_hash'' \<mapsto> ?hn)"
    by (intro ext) simp
  have u2: "\<forall>(k, b)\<in>set t2. b ''email'' = Some email \<longrightarrow> k = uid"
    unfolding t2 by (rule unique_email_map_entry [where t = t1, OF _ u1]) simp
  have all: "\<forall>(k, b)\<in>set (Scan L t2). b ''email'' = Some email \<longrightarrow>
      \<not> truthy (b ''provider'') \<and>
      (\<exists>h. b ''password_hash'' = Some h \<and> \<not> bcrypt_compare L oldPassword h)"
  proof (clarify)
    fix k b assume "(k, b) \<in> set (Scan L t2)" and eb: "b ''email'' = Some email"
    with set_Scan have kb: "(k, b) \<in> set t2" by blast
    have "b = ?a2"
      using d2 m2 u2 kb eb by (rule only_item_with_email)
    then show "\<not> truthy (b ''provider'') \<and>
      (\<exists>h. b ''password_hash'' = Some h \<and> \<not> bcrypt_compare L oldPassword h)"
      using pa op by simp
  qed
  have s3: "authenticateUser L TABLE_NAME email oldPassword t2 =
             Inl (ErrorWithStatus ''Authentication Error (Incorrect email or password)'' 401)"
    using all by (simp add: authenticateUser_def validateTableName_def authenticate_scan_generic)
  have s4: "\<exists>m. resetPassword L TABLE_NAME email token newPassword' salt3 now'' sent t2 =
                  (Inl (ErrorWithStatus m 400), t2)"
    using v d2 m2 u2
  proof (rule resetPassword_cleared)
    show "\<not> truthy (?a2 ''provider'')" using pa by simp
    show "?a2 ''password_hash'' = Some ?hn" by simp
    show "\<not> truthy (?a2 ''resetToken'') \<or> \<not> truthy (?a2 ''tokenExpiry'')"
      by (simp add: truthy_def)
  qed
  from r1 r2 m2 a2 s3 s4 show ?thesis by metis
qed

lemma demo_round_trip_facts:
  "validate demo_lib ''a@x.com''"
  "distinct (map fst demo_db)"
  "find_by_email (Scan demo_lib demo_db) ''a@x.com'' =
     Some (''id1'', new_item ''alice'' ''a@x.com'' (Some ''$2a$10$pw1'') None)"
  "\<forall>(k, b)\<in>set demo_db. b ''email'' = Some ''a@x.com'' \<longrightarrow> k = ''id1''"
  "\<not> truthy (new_item ''alice'' ''a@x.com'' (Some ''$2a$10$pw1'') None ''provider'')"
  "new_item ''alice'' ''a@x.com'' (Some ''$2a$10$pw1'') None ''password_hash'' = Some ''$2a$10$pw1''"
  "\<not> bcrypt_compare demo_lib ''pw2'' ''$2a$10$pw1''"
  "\<not> bcrypt_compare demo_lib ''pw1'' (bcrypt_hash demo_lib ''pw2'' ''s2'')"
  "bcrypt_compare demo_lib ''tok1'' (bcrypt_hash demo_lib ''tok1'' ''s1'')"
  "bcrypt_hash demo_lib ''tok1'' ''s1'' \<noteq> []"
  "parseDate demo_lib (toISOString demo_lib (nextHour demo_lib 0)) = Some (nextHour demo_lib 0)"
  "toISOString demo_lib (nextHour demo_lib 0) \<noteq> []"
  "1000 < nextHour demo_lib 0"
  by (simp_all add: demo_lib_def demo_db_def new_item_def truthy_def Scan_def)

theorem reset_round_trip_witness:
  "bcrypt_compare demo_lib ''tok1'' (bcrypt_hash demo_lib ''tok1'' ''s1'') \<and>
   \<not> bcrypt_compare demo_lib ''pw2'' ''$2a$10$pw1'' \<and>
   map_option fst (find_by_email (Scan demo_lib demo_db) ''a@x.com'') = Some ''id1'' \<and>
   (\<exists>t1 t2.
      sendPasswordResetToken demo_lib TABLE_NAME ''a@x.com'' ''tok1'' ''s1'' 0 True demo_db =
        (Inr ''tok1'', t1) \<and>
      ''id1'' \<in> set (map fst (Scan demo_lib t1)) \<and>
      resetPassword demo_lib TABLE_NAME ''a@x.com'' ''tok1'' ''pw2'' ''s2'' 1000 True t1 = (Inr (), t2) \<and>
      authenticateUser demo_lib TABLE_NAME ''a@x.com'' ''pw1'' t2 =
        Inl (ErrorWithStatus ''Authentication Error (Incorrect email or password)'' 401) \<and>
      (\<exists>m. resetPassword demo_lib TABLE_NAME ''a@x.com'' ''tok1'' ''pw3'' ''s3'' 2000 True t2 =
             (Inl (ErrorWithStatus m 400), t2)))"
proof -
  let ?a = "new_item ''alice'' ''a@x.com'' (Some ''$2a$10$pw1'') None"
  let ?g1 = "\<lambda>b::attrs. b(''resetToken'' \<mapsto> bcrypt_hash demo_lib ''tok1'' ''s1'',
                           ''tokenExpiry'' \<mapsto> toISOString demo_lib (nextHour demo_lib 0))"
  let ?t1 = "AList.map_entry ''id1'' ?g1 demo_db"
  let ?r2 = "fst (resetPassword demo_lib TABLE_NAME ''a@x.com'' ''tok1'' ''pw2'' ''s2'' 1000 True ?t1)"
  let ?t2 = "snd (resetPassword demo_lib TABLE_NAME ''a@x.com'' ''tok1'' ''pw2'' ''s2'' 1000 True ?t1)"
  note fs = demo_round_trip_facts
  have u: "''id1'' \<noteq> []" by simp
  have s1: "sendPasswordResetToken demo_lib TABLE_NAME ''a@x.com'' ''tok1'' ''s1'' 0 True demo_db =
              (Inr ''tok1'', ?t1)"
    using sendPasswordResetToken_ok [OF fs(1) fs(3) u fs(5), of "''tok1''" "''s1''" 0 True]
    by simp
  have p1: "''id1'' \<in> set (map fst (Scan demo_lib ?t1))"
    by (simp add: Scan_def demo_lib_def demo_db_def)
  have s2: "resetPassword demo_lib TABLE_NAME ''a@x.com'' ''tok1'' ''pw2'' ''s2'' 1000 True ?t1 =
              (?r2, ?t2)"
    by simp
  note th = reset_round_trip [OF fs(1) fs(2) fs(3) u fs(4) fs(5) fs(6) fs(7) fs(8) fs(9) fs(10)
      fs(11) fs(12) fs(13) s1 p1 s2, of "''pw3''" "''s3''" 2000 True]
  from th have r2: "?r2 = Inr ()" by blast
  with s2 have s2': "resetPassword demo_lib TABLE_NAME ''a@x.com'' ''tok1'' ''pw2'' ''s2'' 1000 True ?t1 =
              (Inr (), ?t2)"
    by simp
  from th have c: "authenticateUser demo_lib TABLE_NAME ''a@x.com'' ''pw1'' ?t2 =
        Inl (ErrorWithStatus ''Authentication Error (Incorrect email or password)'' 401) \<and>
      (\<exists>m. resetPassword demo_lib TABLE_NAME ''a@x.com'' ''tok1'' ''pw3'' ''s3'' 2000 True ?t2 =
             (Inl (ErrorWithStatus m 400), ?t2))"
    by blast
  from s1 p1 s2' c have "\<exists>t1 t2.
      sendPasswordResetToken demo_lib TABLE_NAME ''a@x.com'' ''tok1'' ''s1'' 0 True demo_db =
        (Inr ''tok1'', t1) \<and>
      ''id1'' \<in> set (map fst (Scan demo_lib t1)) \<and>
      resetPassword demo_lib TABLE_NAME ''a@x.com'' ''tok1'' ''pw2'' ''s2'' 1000 True t1 = (Inr (), t2) \<and>
      authenticateUser demo_lib TABLE_NAME ''a@x.com'' ''pw1'' t2 =
        Inl (ErrorWithStatus ''Authentication Error (Incorrect email or password)'' 401) \<and>
      (\<exists>m. resetPassword demo_lib TABLE_NAME ''a@x.com'' ''tok1'' ''pw3'' ''s3'' 2000 True t2 =
             (Inl (ErrorWithStatus m 400), t2))"
    by blast
  with fs(3) fs(7) fs(9) show ?thesis by simp
qed

text \<open>
  Claim C5 as the specification words it asks only that the new password differ from the
  current one. \<open>resetPassword\<close> tells them apart with \<^verbatim>\<open>bcrypt.compare\<close>, and bcrypt reads
  the first 72 bytes of a secret. \<open>long_old\<close> and \<open>long_new\<close> differ in their last byte, the
  73rd; the account of \<open>long_db\<close> stores the hash of \<open>long_old\<close>, which signs in with it.
  The token is issued, and the reset with the returned token and \<open>long_new\<close> is refused as
  a reuse of the old password.
\<close>

theorem reset_round_trip_counterexample:
  "long_new \<noteq> long_old \<and>
   authenticateUser demo_lib TABLE_NAME ''a@x.com'' long_old long_db = Inr ''id1'' \<and>
   fst (sendPasswordResetToken demo_lib TABLE_NAME ''a@x.com'' ''tok1'' ''s1'' 0 True long_db) =
     Inr ''tok1'' \<and>
   fst (resetPassword demo_lib TABLE_NAME ''a@x.com'' ''tok1'' long_new ''s2'' 1000 True
          (snd (sendPasswordResetToken demo_lib TABLE_NAME ''a@x.com'' ''tok1'' ''s1'' 0 True long_db))) =
     Inl (ErrorWithStatus ''New password cannot be the same as your old password'' 400)"
proof -
  let ?a = "new_item ''alice'' ''a@x.com'' (Some (bcrypt_hash demo_lib long_old ''s0'')) None"
  let ?g1 = "\<lambda>b::attrs. b(''resetToken'' \<mapsto> bcrypt_hash demo_lib ''tok1'' ''s1'',
                           ''tokenExpiry'' \<mapsto> toISOString demo_lib (nextHour demo_lib 0))"
  have n: "long_new \<noteq> long_old"
    by (simp add: long_new_def long_old_def)
  have sc: "Scan demo_lib long_db = long_db"
    by (simp add: Scan_def demo_lib_def long_db_def)
  have a: "?a ''email'' = Some ''a@x.com''" "\<not> truthy (?a ''provider'')"
    "?a ''password_hash'' = Some (bcrypt_hash demo_lib long_old ''s0'')"
    by (simp_all add: new_item_def truthy_def)
  have f: "find_by_email (Scan demo_lib long_db) ''a@x.com'' = Some (''id1'', ?a)"
    by (simp add: sc) (simp add: long_db_def a)
  have v: "validate demo_lib ''a@x.com''"
    by (simp add: demo_lib_def)
  have u: "''id1'' \<noteq> []" by simp
  have s1: "sendPasswordResetToken demo_lib TABLE_NAME ''a@x.com'' ''tok1'' ''s1'' 0 True long_db =
              (Inr ''tok1'', AList.map_entry ''id1'' ?g1 long_db)"
    using sendPasswordResetToken_ok [OF v f u a(2), of "''tok1''" "''s1''" 0 True] by simp
  have t1: "AList.map_entry ''id1'' ?g1 long_db = [(''id1'', ?g1 ?a)]"
    by (simp add: long_db_def)
  have sc1: "Scan demo_lib [(''id1'', ?g1 ?a)] = [(''id1'', ?g1 ?a)]"
    by (simp add: Scan_def demo_lib_def)
  have same: "bcrypt_compare demo_lib long_new (bcrypt_hash demo_lib long_old ''s0'')"
    by (simp add: demo_lib_def long_new_def long_old_def)
  have "reset_scan demo_lib [(''id1'', ?g1 ?a)] [(''id1'', ?g1 ?a)] ''a@x.com'' ''tok1'' long_new 1000 =
          (Inl (ErrorWithStatus ''New password cannot be the same as your old password'' 400),
           [(''id1'', ?g1 ?a)])"
    using same by (simp add: a compare_def)
  then have s2: "fst (resetPassword demo_lib TABLE_NAME ''a@x.com'' ''tok1'' long_new ''s2'' 1000 True
                   [(''id1'', ?g1 ?a)]) =
     Inl (ErrorWithStatus ''New password cannot be the same as your old password'' 400)"
    using v by (simp add: resetPassword_def validateTableName_def sc1)
  have self: "bcrypt_compare demo_lib long_old (bcrypt_hash demo_lib long_old ''s0'')"
    by (simp add: demo_lib_def)
  have au: "authenticateUser demo_lib TABLE_NAME ''a@x.com'' long_old long_db = Inr ''id1''"
    using self
    by (simp add: authenticateUser_def validateTableName_def sc)
       (simp add: long_db_def a compare_def)
  from n au s1 t1 s2 show ?thesis by simp
qed

subsection \<open>Authentication mode\<close>

lemma same_mode_one_mode: "one_mode a \<Longrightarrow> same_mode a a' \<Longrightarrow> one_mode a'"
  by (auto simp: one_mode_def same_mode_def)

lemma list_all_map_entry:
  "list_all (\<lambda>(uid, a). one_mode a) t \<Longrightarrow> safe_edit t uid g \<Longrightarrow>
   list_all (\<lambda>(uid, a). one_mode a) (AList.map_entry uid g t)"
proof (induction t)
  case Nil
  then show ?case by simp
next
  case (Cons p t)
  obtain k b where p: "p = (k, b)" by (cases p)
  show ?case
  proof (cases "k = uid")
    case True
    with Cons.prems p have "one_mode b" "same_mode b (g b)"
      by (simp_all add: safe_edit_def)
    then have "one_mode (g b)" by (rule same_mode_one_mode)
    with Cons.prems True p show ?thesis by simp
  next
    case False
    with Cons.prems(2) p have "safe_edit t uid g" by (simp add: safe_edit_def)
    with Cons.IH Cons.prems(1) p False show ?thesis by simp
  qed
qed

lemma list_all_update:
  "list_all (\<lambda>(uid, a). one_mode a) t \<Longrightarrow> one_mode v \<Longrightarrow>
   list_all (\<lambda>(uid, a). one_mode a) (AList.update j v t)"
  by (induction t) auto

lemma effect_ok:
  assumes "store_ok t" and "effect i t t'"
  shows "store_ok t'"
proof -
  from assms(2) consider "t' = t"
    | j v where "one_mode v" "t' = AList.update j v t"
    | uid g where "safe_edit t uid g" "t' = AList.map_entry uid g t"
    | uid where "t' = AList.delete uid t"
    by (auto simp: effect_def)
  then show ?thesis
  proof cases
    case 1
    with assms(1) show ?thesis by simp
  next
    case 2
    with assms(1) show ?thesis
      by (simp add: store_ok_def distinct_update list_all_update)
  next
    case 3
    with assms(1) show ?thesis
      by (simp add: store_ok_def distinct_map_entry list_all_map_entry)
  next
    case 4
    from assms(1) have "distinct (map fst (AList.delete uid t))"
      by (simp add: store_ok_def distinct_delete)
    moreover from assms(1) have "list_all (\<lambda>(uid, a). one_mode a) (AList.delete uid t)"
      by (auto simp: store_ok_def AList.delete_eq list_all_iff)
    ultimately show ?thesis using 4 by (simp add: store_ok_def)
  qed
qed

lemma effect_mode:
  assumes "effect i t t'" and "case i of None \<Rightarrow> True | Some j \<Rightarrow> j \<notin> set (map fst t)"
    and "map_of t k = Some a" and "map_of t' k = Some a'"
  shows "same_mode a a'"
proof -
  from assms(1) consider "t' = t"
    | j v where "i = Some j" "t' = AList.update j v t"
    | uid g where "safe_edit t uid g" "t' = AList.map_entry uid g t"
    | uid where "t' = AList.delete uid t"
    by (auto simp: effect_def)
  then show ?thesis
  proof cases
    case 1
    with assms(3,4) show ?thesis by (simp add: same_mode_def)
  next
    case 2
    with assms(2) have "j \<notin> set (map fst t)" by simp
    moreover from assms(3) have "k \<in> set (map fst t)" by (rule map_of_key)
    ultimately have "k \<noteq> j" by blast
    with 2 assms(3,4) show ?thesis by (simp add: update_conv' same_mode_def)
  next
    case 3
    show ?thesis
    proof (cases "k = uid")
      case True
      with 3 assms(3,4) have "a' = g a" by (simp add: map_of_map_entry)
      with 3(1) assms(3) True show ?thesis by (simp add: safe_edit_def)
    next
      case False
      with 3 assms(3,4) show ?thesis by (simp add: map_of_map_entry same_mode_def)
    qed
  next
    case 4
    show ?thesis
    proof (cases "k = uid")
      case True
      with 4 assms(4) show ?thesis by (simp add: delete_conv')
    next
      case False
      with 4 assms(3,4) show ?thesis by (simp add: same_mode_def)
    qed
  qed
qed

lemma effect_edit:
  "safe_edit t uid (set_attrs info) \<Longrightarrow> effect i t (snd (databaseEditUser uid info t))"
  by (auto simp: databaseEditUser_def effect_def)

lemma safe_edit_neutral:
  "map_of info ''provider'' = None \<Longrightarrow> map_of info ''password_hash'' = None \<Longrightarrow>
   safe_edit t uid (set_attrs info)"
  by (simp add: safe_edit_def same_mode_def set_attrs_def map_add_def)

lemma safe_edit_password:
  "map_of t uid = Some a \<Longrightarrow> a ''password_hash'' \<noteq> None \<Longrightarrow>
   map_of info ''provider'' = None \<Longrightarrow> map_of info ''password_hash'' \<noteq> None \<Longrightarrow>
   safe_edit t uid (set_attrs info)"
  by (auto simp: safe_edit_def same_mode_def set_attrs_def map_add_def)


lemma authenticate_scan_Inr:
  "authenticate_scan L t email password = Inr uid \<Longrightarrow>
   \<exists>a. (uid, a) \<in> set t \<and> a ''password_hash'' \<noteq> None"
proof (induction t)
  case Nil
  then show ?case by simp
next
  case (Cons p t)
  obtain k b where p: "p = (k, b)" by (cases p)
  show ?case
  proof (cases "authenticate_scan L t email password = Inr uid")
    case True
    with Cons.IH show ?thesis by auto
  next
    case False
    with Cons.prems p have "k = uid \<and> b ''password_hash'' \<noteq> None"
      by (auto simp: compare_def split: if_splits option.splits)
    with p show ?thesis by auto
  qed
qed

lemma reset_scan_effect:
  "reset_scan L items t email token newPassword now = (r, t') \<Longrightarrow>
   (case r of
      Inl e \<Rightarrow>
        t' = t \<or>
        (\<exists>uid. t' = AList.map_entry uid (set_attrs [(''resetToken'', []), (''tokenExpiry'', [])]) t)
    | Inr uid \<Rightarrow>
        t' = t \<and> (uid = [] \<or> (\<exists>a. (uid, a) \<in> set items \<and> a ''password_hash'' \<noteq> None)))"
proof (induction items)
  case Nil
  then show ?case by auto
next
  case (Cons p items)
  obtain k b where p: "p = (k, b)" by (cases p)
  show ?case
  proof (cases "b ''email'' = Some email")
    case False
    with Cons p show ?thesis by (auto split: sum.splits)
  next
    case True
    with Cons.prems p show ?thesis
      by (auto simp: compare_def databaseEditUser_def split: if_splits option.splits sum.splits)
  qed
qed

lemma allowed_fields_neutral:
  assumes "check_fields ADDITIONAL_USER_FIELDS (map fst info) = None"
  shows "map_of info ''provider'' = None \<and> map_of info ''password_hash'' = None"
proof -
  have "toLowerCase ''provider'' \<notin> set ADDITIONAL_USER_FIELDS"
    and "toLowerCase ''password_hash'' \<notin> set ADDITIONAL_USER_FIELDS"
    by (simp_all add: toLowerCase_def lower_char_def ADDITIONAL_USER_FIELDS_def)
  with assms have "''provider'' \<notin> set (map fst info)" "''password_hash'' \<notin> set (map fst info)"
    using check_fields_None by blast+
  then show ?thesis by (simp add: map_of_eq_None_iff)
qed

lemma registerUser_effect:
  "effect (Some newIdVal) t (snd (registerUser L table username password email salt newIdVal t))"
proof -
  let ?v = "new_item username email (Some (bcrypt_hash L password salt)) None"
  have "snd (registerUser L table username password email salt newIdVal t) = t \<or>
        snd (registerUser L table username password email salt newIdVal t) =
          AList.update newIdVal ?v t"
    by (simp add: registerUser_def databaseAddUser_def split: option.splits)
  moreover have "one_mode ?v"
    by (simp add: one_mode_def new_item_def)
  ultimately show ?thesis unfolding effect_def by blast
qed

lemma authenticateOauthUser_effect:
  "effect (Some newIdVal) t (snd (authenticateOauthUser L table username provider email newIdVal t))"
proof -
  let ?v = "new_item username email None (Some provider)"
  have "snd (authenticateOauthUser L table username provider email newIdVal t) = t \<or>
        snd (authenticateOauthUser L table username provider email newIdVal t) =
          AList.update newIdVal ?v t"
    by (simp add: authenticateOauthUser_def databaseAddUser_def split: option.splits)
  moreover have "one_mode ?v"
    by (simp add: one_mode_def new_item_def)
  ultimately show ?thesis unfolding effect_def by blast
qed

lemma setUserInfo_effect: "effect None t (snd (setUserInfo table user_id info t))"
proof (cases "validateTableName table = None \<and>
              check_fields ADDITIONAL_USER_FIELDS (map fst info) = None")
  case False
  then show ?thesis by (auto simp: setUserInfo_def effect_def split: option.splits)
next
  case True
  then have "safe_edit t user_id (set_attrs info)"
    using allowed_fields_neutral safe_edit_neutral by blast
  then have "effect None t (snd (databaseEditUser user_id info t))" by (rule effect_edit)
  moreover have "snd (setUserInfo table user_id info t) = snd (databaseEditUser user_id info t)"
    using True by (simp add: setUserInfo_def databaseEditUser_def)
  ultimately show ?thesis by simp
qed

lemma changePassword_effect:
  assumes "distinct (map fst t)"
  shows "effect None t (snd (changePassword L table email oldPassword newPassword salt t))"
proof (cases "authenticateUser L table email oldPassword t")
  case (Inl e)
  then show ?thesis by (simp add: changePassword_def effect_def split: option.splits)
next
  case (Inr userId)
  show ?thesis
  proof (cases "validateTableName table = None \<and> oldPassword \<noteq> newPassword")
    case False
    then show ?thesis by (auto simp: changePassword_def effect_def split: option.splits)
  next
    case True
    with Inr have "authenticate_scan L (Scan L t) email oldPassword = Inr userId"
      by (simp add: authenticateUser_def)
    then obtain a where "(userId, a) \<in> set (Scan L t)" and h: "a ''password_hash'' \<noteq> None"
      using authenticate_scan_Inr by blast
    with set_Scan have "(userId, a) \<in> set t" by blast
    with assms have "map_of t userId = Some a" by simp
    then have "safe_edit t userId (set_attrs [(''password_hash'', bcrypt_hash L newPassword salt)])"
      using h by (rule safe_edit_password) simp_all
    then have "effect None t
       (snd (databaseEditUser userId [(''password_hash'', bcrypt_hash L newPassword salt)] t))"
      by (rule effect_edit)
    with True Inr show ?thesis by (simp add: changePassword_def)
  qed
qed

lemma deleteUser_effect: "effect None t (snd (deleteUser table userId t))"
  by (auto simp: deleteUser_def effect_def split: option.splits)

lemma sendPasswordResetToken_effect:
  "effect None t (snd (sendPasswordResetToken L table email token salt now sent t))"
proof -
  let ?info = "[(''resetToken'', bcrypt_hash L token salt),
                (''tokenExpiry'', toISOString L (nextHour L now))]"
  have e: "\<And>uid. effect None t (snd (databaseEditUser uid ?info t))"
    by (rule effect_edit) (simp add: safe_edit_neutral)
  have "snd (sendPasswordResetToken L table email token salt now sent t) = t \<or>
        (\<exists>uid. snd (sendPasswordResetToken L table email token salt now sent t) =
                snd (databaseEditUser uid ?info t))"
    by (auto simp: sendPasswordResetToken_def Let_def split: option.splits sum.splits prod.splits)
       (metis snd_conv)+
  then show ?thesis
  proof
    assume "snd (sendPasswordResetToken L table email token salt now sent t) = t"
    then show ?thesis by (simp add: effect_def)
  next
    assume "\<exists>uid. snd (sendPasswordResetToken L table email token salt now sent t) =
                snd (databaseEditUser uid ?info t)"
    then obtain uid where "snd (sendPasswordResetToken L table email token salt now sent t) =
                snd (databaseEditUser uid ?info t)"
      by blast
    with e [of uid] show ?thesis by simp
  qed
qed

lemma resetPassword_effect:
  assumes "distinct (map fst t)"
  shows "effect None t (snd (resetPassword L table email token newPassword salt now sent t))"
proof (cases "validateTableName table = None \<and> validate L email")
  case False
  then show ?thesis by (auto simp: resetPassword_def effect_def split: option.splits)
next
  case True
  obtain r t' where scan: "reset_scan L (Scan L t) t email token newPassword now = (r, t')"
    by (cases "reset_scan L (Scan L t) t email token newPassword now")
  note eff = reset_scan_effect [OF scan]
  show ?thesis
  proof (cases r)
    case (Inl e)
    with eff have "t' = t \<or>
        (\<exists>uid. t' = AList.map_entry uid (set_attrs [(''resetToken'', []), (''tokenExpiry'', [])]) t)"
      by simp
    moreover have "\<And>uid. safe_edit t uid (set_attrs [(''resetToken'', []), (''tokenExpiry'', [])])"
      by (simp add: safe_edit_neutral)
    ultimately have "effect None t t'" by (auto simp: effect_def)
    with True scan Inl show ?thesis by (simp add: resetPassword_def)
  next
    case (Inr uid)
    with eff have t': "t' = t"
      and "uid = [] \<or> (\<exists>a. (uid, a) \<in> set (Scan L t) \<and> a ''password_hash'' \<noteq> None)"
      by simp_all
    with set_Scan have u: "uid = [] \<or> (\<exists>a. (uid, a) \<in> set t \<and> a ''password_hash'' \<noteq> None)"
      by blast
    show ?thesis
    proof (cases "uid = []")
      case True
      with \<open>validateTableName table = None \<and> validate L email\<close> scan Inr t' show ?thesis
        by (simp add: resetPassword_def effect_def)
    next
      case False
      let ?info = "[(''resetToken'', []), (''tokenExpiry'', []),
                    (''password_hash'', bcrypt_hash L newPassword salt)]"
      from False u obtain a where "(uid, a) \<in> set t" and h: "a ''password_hash'' \<noteq> None"
        by blast
      with assms have "map_of t uid = Some a" by simp
      then have "safe_edit t uid (set_attrs ?info)"
        using h by (rule safe_edit_password) simp_all
      then have e: "effect None t (snd (databaseEditUser uid ?info t))"
        by (rule effect_edit)
      have "snd (resetPassword L table email token newPassword salt now sent t) =
            snd (databaseEditUser uid ?info t)"
        using True scan Inr t' False
        by (simp add: resetPassword_def Let_def split: prod.splits sum.splits option.splits)
      with e show ?thesis by simp
    qed
  qed
qed

lemma step_effect: "distinct (map fst t) \<Longrightarrow> effect (new_id c) t (step L c t)"
proof (cases c)
  case (Register table username password email salt newIdVal)
  then show ?thesis by (simp add: registerUser_effect)
next
  case (Authenticate table email password)
  then show ?thesis by (simp add: effect_def)
next
  case (AuthenticateOrRegisterOAuth table username provider email newIdVal)
  then show ?thesis by (simp add: authenticateOauthUser_effect)
next
  case (SetProfile table user_id info)
  then show ?thesis by (simp add: setUserInfo_effect)
next
  case (GetProfile table user_id fields')
  then show ?thesis by (simp add: effect_def)
next
  case (ChangePassword table email oldPassword newPassword salt)
  moreover assume "distinct (map fst t)"
  ultimately show ?thesis by (simp add: changePassword_effect)
next
  case (DeleteUser table userId)
  then show ?thesis by (simp add: deleteUser_effect)
next
  case (IssueResetToken table email token salt now sent)
  then show ?thesis by (simp add: sendPasswordResetToken_effect)
next
  case (ResetPassword table email token newPassword salt now sent)
  moreover assume "distinct (map fst t)"
  ultimately show ?thesis by (simp add: resetPassword_effect)
qed

lemma step_ok: "store_ok t \<Longrightarrow> store_ok (step L c t)"
  using effect_ok step_effect by (metis store_ok_def)

lemma run_ok: "store_ok t \<Longrightarrow> store_ok (run L cs t)"
  by (induction cs arbitrary: t) (simp_all add: step_ok)

text \<open>
  Claim C1. From a table in which every item has exactly one authentication mode
  (\<^verbatim>\<open>password_hash\<close> stored and \<^verbatim>\<open>provider\<close> not, or \<^verbatim>\<open>provider\<close> stored and
  \<^verbatim>\<open>password_hash\<close> not), every sequence of calls leads to such a table; and in any table
  reached, a further call whose new identifier is fresh leaves every item that it keeps
  in the mode the item had: the same \<^verbatim>\<open>provider\<close>, and \<^verbatim>\<open>password_hash\<close> stored as before
  or absent as before.
\<close>

theorem one_mode_invariant:
  assumes "store_ok t"
  shows "store_ok (run L cs t) \<and>
         (\<forall>c k a a'. fresh_id c (run L cs t) \<and> map_of (run L cs t) k = Some a \<and>
                      map_of (step L c (run L cs t)) k = Some a' \<longrightarrow> same_mode a a')"
proof (intro conjI allI impI)
  show ok: "store_ok (run L cs t)"
    using assms by (rule run_ok)
  fix c k a a'
  assume h: "fresh_id c (run L cs t) \<and> map_of (run L cs t) k = Some a \<and>
             map_of (step L c (run L cs t)) k = Some a'"
  from ok have "effect (new_id c) (run L cs t) (step L c (run L cs t))"
    by (simp add: store_ok_def step_effect)
  moreover from h have
    "case new_id c of None \<Rightarrow> True | Some j \<Rightarrow> j \<notin> set (map fst (run L cs t))"
    by (simp add: fresh_id_def)
  ultimately show "same_mode a a'"
    using h by (blast intro: effect_mode)
qed


theorem one_mode_invariant_witness:
  "store_ok demo_db \<and>
   store_ok (run demo_lib
     [Register TABLE_NAME ''eve'' ''pw2'' ''e@x.com'' ''s1'' ''id3'',
      AuthenticateOrRegisterOAuth TABLE_NAME ''dan'' ''github'' ''d@x.com'' ''id4'',
      ChangePassword TABLE_NAME ''a@x.com'' ''pw1'' ''pw9'' ''s2''] demo_db) \<and>
   fresh_id (ChangePassword TABLE_NAME ''a@x.com'' ''pw1'' ''pw9'' ''s2'') demo_db \<and>
   map_of demo_db ''id1'' = Some (new_item ''alice'' ''a@x.com'' (Some ''$2a$10$pw1'') None) \<and>
   map_of (step demo_lib (ChangePassword TABLE_NAME ''a@x.com'' ''pw1'' ''pw9'' ''s2'') demo_db) ''id1'' =
     Some (set_attrs [(''password_hash'', ''$2a$10$pw9'')]
             (new_item ''alice'' ''a@x.com'' (Some ''$2a$10$pw1'') None)) \<and>
   same_mode (new_item ''alice'' ''a@x.com'' (Some ''$2a$10$pw1'') None)
     (set_attrs [(''password_hash'', ''$2a$10$pw9'')]
        (new_item ''alice'' ''a@x.com'' (Some ''$2a$10$pw1'') None))"
proof -
  let ?c = "ChangePassword TABLE_NAME ''a@x.com'' ''pw1'' ''pw9'' ''s2''"
  let ?a = "new_item ''alice'' ''a@x.com'' (Some ''$2a$10$pw1'') None"
  let ?a' = "set_attrs [(''password_hash'', ''$2a$10$pw9'')] ?a"
  have ok: "store_ok demo_db"
    by (simp add: store_ok_def demo_db_def one_mode_def new_item_def)
  have fr: "fresh_id ?c demo_db"
    by (simp add: fresh_id_def)
  have m: "map_of demo_db ''id1'' = Some ?a"
    by (simp add: demo_db_def)
  have sc: "authenticate_scan demo_lib (Scan demo_lib demo_db) ''a@x.com'' ''pw1'' = Inr ''id1''"
    by (simp add: demo_db_def new_item_def truthy_def compare_def demo_lib_def Scan_def)
  have st: "step demo_lib ?c demo_db =
              AList.map_entry ''id1'' (set_attrs [(''password_hash'', ''$2a$10$pw9'')]) demo_db"
    using sc
    by (simp add: changePassword_def validateTableName_def authenticateUser_def
        databaseEditUser_def demo_db_def demo_lib_def)
  have m': "map_of (step demo_lib ?c demo_db) ''id1'' = Some ?a'"
    by (subst st) (simp add: map_of_map_entry m)
  note th1 = one_mode_invariant [OF ok, of demo_lib
     "[Register TABLE_NAME ''eve'' ''pw2'' ''e@x.com'' ''s1'' ''id3'',
       AuthenticateOrRegisterOAuth TABLE_NAME ''dan'' ''github'' ''d@x.com'' ''id4'',
       ChangePassword TABLE_NAME ''a@x.com'' ''pw1'' ''pw9'' ''s2'']"]
  note th2 = one_mode_invariant [OF ok, of demo_lib "[]"]
  from th1 have c1: "store_ok (run demo_lib
     [Register TABLE_NAME ''eve'' ''pw2'' ''e@x.com'' ''s1'' ''id3'',
      AuthenticateOrRegisterOAuth TABLE_NAME ''dan'' ''github'' ''d@x.com'' ''id4'',
      ChangePassword TABLE_NAME ''a@x.com'' ''pw1'' ''pw9'' ''s2''] demo_db)"
    by (rule conjunct1)
  from th2 have "fresh_id ?c (run demo_lib [] demo_db) \<and>
      map_of (run demo_lib [] demo_db) ''id1'' = Some ?a \<and>
      map_of (step demo_lib ?c (run demo_lib [] demo_db)) ''id1'' = Some ?a' \<longrightarrow>
      same_mode ?a ?a'"
    by blast
  with fr m m' have c2: "same_mode ?a ?a'" by simp
  from ok c1 fr m m' c2 show ?thesis by blast
qed

end
